theory Spec2Isabelle
  imports Complex_Main "HOL-Library.Word"
begin

section \<open>Python values and errors\<close>

text \<open>
  This development models \<^verbatim>\<open>pyramid_session_redis/util.py\<close>: the payload codec with
  its expiration policy, the settings parser, the identifier allocator and the default
  identifier generator. The repository also carries \<^verbatim>\<open>pyramid_redis_sessions/util.py\<close>,
  the module this package grew out of; it has no payload codec, no trigger and no TTL
  flag. Its settings parser, its insert attempt and its default identifier generator are
  modelled beside their successors, under names ending in \<open>_legacy\<close>.

  The exceptions the modelled functions can raise or catch. A function that can raise
  returns \<open>py_error + 'a\<close>, with \<open>Inl\<close> the exception.
\<close>

datatype py_error = TypeError | KeyError | ValueError | ConfigurationError | WatchError

text \<open>
  The values stored in a session payload: the managed dict (kept abstract, of type
  \<open>'m\<close>), integers, and \<^verbatim>\<open>None\<close> (what \<^verbatim>\<open>dict.get\<close> returns for a missing key).
  A payload is a Python dict with string keys.
\<close>

datatype 'm pyval = PyNone | PyInt int | PyDict 'm

type_synonym 'm payload = "string \<rightharpoonup> 'm pyval"

text \<open>\<^verbatim>\<open>SESSION_API_VERSION = 1\<close>\<close>

definition SESSION_API_VERSION :: int where
  "SESSION_API_VERSION = 1"

text \<open>
  Python's truth value of an optional integer (\<^verbatim>\<open>if timeout:\<close>): \<^verbatim>\<open>None\<close> and \<^verbatim>\<open>0\<close> are
  false, every other integer is true. The same for an optional flag
  (\<^verbatim>\<open>if python_expires:\<close>): \<^verbatim>\<open>None\<close> and \<^verbatim>\<open>False\<close> are false.
\<close>

fun truthy :: "int option \<Rightarrow> bool" where
  "truthy None = False"
| "truthy (Some n) = (n \<noteq> 0)"

fun flag_set :: "bool option \<Rightarrow> bool" where
  "flag_set None = False"
| "flag_set (Some b) = b"

text \<open>An optional integer as a payload value: \<^verbatim>\<open>None\<close> or the integer.\<close>

fun pyval_of :: "int option \<Rightarrow> 'm pyval" where
  "pyval_of None = PyNone"
| "pyval_of (Some n) = PyInt n"

section \<open>The payload codec\<close>

text \<open>
  \<^verbatim>\<open>empty_session_payload(timeout=0, python_expires=None)\<close>. The clock read
  \<^verbatim>\<open>int_time()\<close> is the last argument. The managed dict of the new payload is the
  empty dict, passed as \<open>empty_dict\<close> because the dict type is abstract.
\<close>

definition empty_session_payload ::
  "'m \<Rightarrow> int option \<Rightarrow> bool option \<Rightarrow> int \<Rightarrow> 'm payload" where
  "empty_session_payload empty_dict timeout python_expires time_now =
     (let created = time_now;
          data = [''m'' \<mapsto> PyDict empty_dict, ''c'' \<mapsto> PyInt created,
                  ''v'' \<mapsto> PyInt SESSION_API_VERSION]
      in case timeout of
           None \<Rightarrow> data
         | Some t \<Rightarrow>
             if t = 0 then data
             else if flag_set python_expires
               then data(''t'' \<mapsto> PyInt t, ''x'' \<mapsto> PyInt (created + t))
               else data(''t'' \<mapsto> PyInt t))"

text \<open>
  \<^verbatim>\<open>encode_session_payload(managed_dict, created, timeout, expires,
  timeout_trigger=None, python_expires=None)\<close>. The clock read \<^verbatim>\<open>int_time()\<close> is the last
  argument. The subtraction \<^verbatim>\<open>expires - timeout_trigger\<close> is only evaluated when
  \<^verbatim>\<open>timeout_trigger\<close> is true; with \<^verbatim>\<open>expires = None\<close> it raises \<^verbatim>\<open>TypeError\<close>.
\<close>

definition encode_session_payload ::
  "'m \<Rightarrow> int \<Rightarrow> int option \<Rightarrow> int option \<Rightarrow> int option \<Rightarrow> bool option \<Rightarrow> int
     \<Rightarrow> py_error + 'm payload" where
  "encode_session_payload managed_dict created timeout expires timeout_trigger
       python_expires time_now =
     (let data0 = [''m'' \<mapsto> PyDict managed_dict, ''c'' \<mapsto> PyInt created,
                   ''v'' \<mapsto> PyInt SESSION_API_VERSION];
          data1 = (case expires of
                     None \<Rightarrow> data0
                   | Some e \<Rightarrow>
                       if e \<noteq> 0 \<and> flag_set python_expires
                       then data0(''x'' \<mapsto> PyInt e) else data0)
      in case timeout of
           None \<Rightarrow> Inr data1
         | Some t \<Rightarrow>
             if t = 0 then Inr data1
             else
               (let data2 = data1(''t'' \<mapsto> PyInt t) in
                if flag_set python_expires then
                  (case timeout_trigger of
                     None \<Rightarrow> Inr (data2(''x'' \<mapsto> PyInt (time_now + t)))
                   | Some g \<Rightarrow>
                       if g = 0 then Inr (data2(''x'' \<mapsto> PyInt (time_now + t)))
                       else
                         (case expires of
                            None \<Rightarrow> Inl TypeError
                          | Some e \<Rightarrow>
                              if time_now \<ge> e - g
                              then Inr (data2(''x'' \<mapsto> PyInt (time_now + t)))
                              else Inr data2))
                else Inr data2))"

text \<open>\<^verbatim>\<open>dict.get(key)\<close>: the value, or \<^verbatim>\<open>None\<close> for a missing key.\<close>

definition dict_get :: "'m payload \<Rightarrow> string \<Rightarrow> 'm pyval" where
  "dict_get d k = (case d k of None \<Rightarrow> PyNone | Some v \<Rightarrow> v)"

text \<open>
  \<^verbatim>\<open>decode_session_payload(payload)\<close>: \<^verbatim>\<open>payload["m"]\<close>, \<^verbatim>\<open>payload["c"]\<close> and
  \<^verbatim>\<open>payload["v"]\<close> raise \<^verbatim>\<open>KeyError\<close> on a missing key; \<^verbatim>\<open>"t"\<close> and \<^verbatim>\<open>"x"\<close> are read
  with \<^verbatim>\<open>get\<close>.
\<close>

definition decode_session_payload :: "'m payload \<Rightarrow> py_error + (string \<rightharpoonup> 'm pyval)" where
  "decode_session_payload payload =
     (case payload ''m'' of
        None \<Rightarrow> Inl KeyError
      | Some m \<Rightarrow>
          (case payload ''c'' of
             None \<Rightarrow> Inl KeyError
           | Some c \<Rightarrow>
               (case payload ''v'' of
                  None \<Rightarrow> Inl KeyError
                | Some v \<Rightarrow>
                    Inr [''managed_dict'' \<mapsto> m, ''created'' \<mapsto> c, ''version'' \<mapsto> v,
                         ''timeout'' \<mapsto> dict_get payload ''t'',
                         ''expires'' \<mapsto> dict_get payload ''x''])))"

text \<open>The integer behind a payload value, if it is one.\<close>

fun int_of_pyval :: "'m pyval \<Rightarrow> int option" where
  "int_of_pyval (PyInt n) = Some n"
| "int_of_pyval _ = None"

text \<open>
  What \<^verbatim>\<open>decode_session_payload\<close> hands back as \<^verbatim>\<open>expires\<close> for a payload:
  \<^verbatim>\<open>payload.get("x")\<close>.
\<close>

definition payload_expires :: "'m payload \<Rightarrow> int option" where
  "payload_expires p = int_of_pyval (dict_get p ''x'')"

text \<open>
  Modelled from the spec: the life of one record (sections 2 and 4.4). The session object
  that drives the codec is not part of \<^verbatim>\<open>util.py\<close>; what the spec says of it is that a
  record is created once and then re-encoded at every persist with its own \<^verbatim>\<open>created\<close>
  and \<^verbatim>\<open>timeout\<close> and the \<^verbatim>\<open>expires\<close> read back from the payload written before.
  \<open>persists\<close> runs \<^verbatim>\<open>encode_session_payload\<close> once per step (the managed dict and the
  clock of that persist) and lists the payloads written; an encode that raises ends the
  list. \<open>record_history\<close> starts the list with \<^verbatim>\<open>empty_session_payload\<close> at time
  \<open>created\<close>.
\<close>

fun persists ::
  "int \<Rightarrow> int option \<Rightarrow> int option \<Rightarrow> bool option \<Rightarrow> int option \<Rightarrow> ('m \<times> int) list
     \<Rightarrow> 'm payload list" where
  "persists created timeout timeout_trigger python_expires expires [] = []"
| "persists created timeout timeout_trigger python_expires expires
       ((managed_dict, time_now) # rest) =
     (case encode_session_payload managed_dict created timeout expires timeout_trigger
             python_expires time_now of
        Inl err \<Rightarrow> []
      | Inr p \<Rightarrow> p # persists created timeout timeout_trigger python_expires
                      (payload_expires p) rest)"

definition record_history ::
  "'m \<Rightarrow> int option \<Rightarrow> int option \<Rightarrow> bool option \<Rightarrow> int \<Rightarrow> ('m \<times> int) list
     \<Rightarrow> 'm payload list" where
  "record_history empty_dict timeout timeout_trigger python_expires created steps =
     (let p0 = empty_session_payload empty_dict timeout python_expires created
      in p0 # persists created timeout timeout_trigger python_expires
                (payload_expires p0) steps)"

section \<open>Settings\<close>

text \<open>
  The values a settings dict can hold: strings (what an ini file gives), integers,
  booleans, \<^verbatim>\<open>None\<close>, floats, any other object (a callable resolved from a dotted
  name, say) identified by a label, and the id generator \<^verbatim>\<open>partial(prefixed_id,
  prefix=prefix)\<close> that \<^verbatim>\<open>_parse_settings\<close> builds for a key prefix.
\<close>

datatype setting =
    SStr string | SInt int | SBool bool | SNone | SFloat real | SObject string
  | SPrefixedId setting

type_synonym options = "string \<rightharpoonup> setting"

text \<open>Python's truth value of a setting, as \<^verbatim>\<open>all\<close> and \<^verbatim>\<open>any\<close> read it.\<close>

fun truth :: "setting \<Rightarrow> bool" where
  "truth (SStr s) = (s \<noteq> [])"
| "truth (SInt n) = (n \<noteq> 0)"
| "truth (SBool b) = b"
| "truth SNone = False"
| "truth (SFloat r) = (r \<noteq> 0)"
| "truth (SObject name) = True"
| "truth (SPrefixedId prefix) = True"

text \<open>The tuples \<^verbatim>\<open>configs_bool\<close>, \<^verbatim>\<open>configs_int\<close> and \<^verbatim>\<open>configs_int_none\<close>.\<close>

definition configs_bool :: "string list" where
  "configs_bool = [''cookie_secure'', ''cookie_httponly'', ''cookie_on_exception'',
     ''set_redis_ttl'', ''set_redis_ttl_readheavy'', ''detect_changes'',
     ''deserialized_fails_new'', ''python_expires'']"

definition configs_int :: "string list" where
  "configs_int = [''port'', ''db'', ''cookie_max_age'']"

definition configs_int_none :: "string list" where
  "configs_int_none = [''timeout'', ''timeout_trigger'']"

text \<open>\<^verbatim>\<open>s.startswith(pre)\<close> and \<^verbatim>\<open>k.split(".")[-1]\<close>.\<close>

definition startswith :: "string \<Rightarrow> string \<Rightarrow> bool" where
  "startswith s pre = (take (length pre) s = pre)"

definition last_component :: "string \<Rightarrow> string" where
  "last_component k = rev (takeWhile (\<lambda>c. c \<noteq> CHR ''.'') (rev k))"

text \<open>
  The first loop of \<^verbatim>\<open>_parse_settings\<close>: every setting whose key starts with
  \<^verbatim>\<open>redis.sessions.\<close> is stored under the last component of its key. The settings dict
  is the list of its items in iteration order (a later key with the same last component
  overwrites an earlier one).
\<close>

fun collect_options :: "(string \<times> setting) list \<Rightarrow> options \<Rightarrow> options" where
  "collect_options [] options = options"
| "collect_options ((k, v) # rest) options =
     (if startswith k ''redis.sessions.''
      then collect_options rest (options(last_component k \<mapsto> v))
      else collect_options rest options)"

text \<open>\<^verbatim>\<open>options.get(k)\<close>\<close>

definition options_get :: "options \<Rightarrow> string \<Rightarrow> setting" where
  "options_get options k = (case options k of None \<Rightarrow> SNone | Some v \<Rightarrow> v)"

text \<open>
  The coercion loops. \<^verbatim>\<open>asbool\<close> (of \<^verbatim>\<open>pyramid.settings\<close>), \<^verbatim>\<open>int\<close> and \<^verbatim>\<open>float\<close> are
  not code of this repository: they are parameters. \<^verbatim>\<open>asbool\<close> returns a boolean for
  every value; \<^verbatim>\<open>int\<close> and \<^verbatim>\<open>float\<close> return a number or raise.
\<close>

fun coerce_bools :: "(setting \<Rightarrow> bool) \<Rightarrow> string list \<Rightarrow> options \<Rightarrow> options" where
  "coerce_bools asbool [] options = options"
| "coerce_bools asbool (b # rest) options =
     (case options b of
        None \<Rightarrow> coerce_bools asbool rest options
      | Some v \<Rightarrow> coerce_bools asbool rest (options(b \<mapsto> SBool (asbool v))))"

fun coerce_ints ::
  "(setting \<Rightarrow> py_error + int) \<Rightarrow> string list \<Rightarrow> options \<Rightarrow> py_error + options" where
  "coerce_ints py_int [] options = Inr options"
| "coerce_ints py_int (i # rest) options =
     (case options i of
        None \<Rightarrow> coerce_ints py_int rest options
      | Some v \<Rightarrow>
          (case py_int v of
             Inl err \<Rightarrow> Inl err
           | Inr n \<Rightarrow> coerce_ints py_int rest (options(i \<mapsto> SInt n))))"

fun coerce_ints_none ::
  "(setting \<Rightarrow> py_error + int) \<Rightarrow> string list \<Rightarrow> options \<Rightarrow> py_error + options" where
  "coerce_ints_none py_int [] options = Inr options"
| "coerce_ints_none py_int (i # rest) options =
     (case options i of
        None \<Rightarrow> coerce_ints_none py_int rest options
      | Some v \<Rightarrow>
          if v = SStr ''None'' then coerce_ints_none py_int rest (options(i \<mapsto> SNone))
          else
            (case py_int v of
               Inl err \<Rightarrow> Inl err
             | Inr n \<Rightarrow>
                 if n = 0 then coerce_ints_none py_int rest (options(i \<mapsto> SNone))
                 else coerce_ints_none py_int rest (options(i \<mapsto> SInt n))))"

definition coerce_float ::
  "(setting \<Rightarrow> py_error + real) \<Rightarrow> options \<Rightarrow> py_error + options" where
  "coerce_float py_float options =
     (case options ''socket_timeout'' of
        None \<Rightarrow> Inr options
      | Some v \<Rightarrow>
          (case py_float v of
             Inl err \<Rightarrow> Inl err
           | Inr r \<Rightarrow> Inr (options(''socket_timeout'' \<mapsto> SFloat r))))"

text \<open>
  \<^verbatim>\<open>_parse_settings(settings)\<close> of \<^verbatim>\<open>pyramid_session_redis/util.py\<close> (a name cannot
  start with an underscore here). \<^verbatim>\<open>all(t) or not any(t)\<close> on the pair of the secret and
  the cookie signer is written out on their truth values.
\<close>

definition parse_settings ::
  "(setting \<Rightarrow> py_error + int) \<Rightarrow> (setting \<Rightarrow> py_error + real) \<Rightarrow> (setting \<Rightarrow> bool)
     \<Rightarrow> (string \<times> setting) list \<Rightarrow> py_error + options" where
  "parse_settings py_int py_float asbool settings =
     (let options = collect_options settings Map.empty;
          secret = options_get options ''secret'';
          cookie_signer = options_get options ''cookie_signer''
      in if (truth secret \<and> truth cookie_signer) \<or> \<not> (truth secret \<or> truth cookie_signer)
         then Inl ConfigurationError
         else
           (case coerce_ints py_int configs_int (coerce_bools asbool configs_bool options) of
              Inl err \<Rightarrow> Inl err
            | Inr options \<Rightarrow>
                (case coerce_ints_none py_int configs_int_none options of
                   Inl err \<Rightarrow> Inl err
                 | Inr options \<Rightarrow>
                     (case coerce_float py_float options of
                        Inl err \<Rightarrow> Inl err
                      | Inr options \<Rightarrow>
                          if ''prefix'' \<in> dom options \<and> ''id_generator'' \<in> dom options
                          then Inl ConfigurationError
                          else
                            (case options ''prefix'' of
                               None \<Rightarrow> Inr options
                             | Some prefix \<Rightarrow>
                                 Inr (options(''prefix'' := None,
                                        ''id_generator'' \<mapsto> SPrefixedId prefix)))))))"

text \<open>
  \<^verbatim>\<open>_parse_settings(settings)\<close> of the legacy module \<^verbatim>\<open>pyramid_redis_sessions/util.py\<close>:
  the key \<^verbatim>\<open>secret\<close> must be present (whatever its value), three settings are coerced to
  booleans and four, \<^verbatim>\<open>timeout\<close> among them, to integers; there is no cookie signer and
  no \<^verbatim>\<open>"None"\<close> for a timeout. The two lists are the tuples the loops of the source run
  over.
\<close>

definition legacy_bools :: "string list" where
  "legacy_bools = [''cookie_secure'', ''cookie_httponly'', ''cookie_on_exception'']"

definition legacy_ints :: "string list" where
  "legacy_ints = [''timeout'', ''port'', ''db'', ''cookie_max_age'']"

definition parse_settings_legacy ::
  "(setting \<Rightarrow> py_error + int) \<Rightarrow> (setting \<Rightarrow> py_error + real) \<Rightarrow> (setting \<Rightarrow> bool)
     \<Rightarrow> (string \<times> setting) list \<Rightarrow> py_error + options" where
  "parse_settings_legacy py_int py_float asbool settings =
     (let options = collect_options settings Map.empty
      in if ''secret'' \<notin> dom options then Inl ConfigurationError
         else
           (case coerce_ints py_int legacy_ints (coerce_bools asbool legacy_bools options) of
              Inl err \<Rightarrow> Inl err
            | Inr options \<Rightarrow>
                (case coerce_float py_float options of
                   Inl err \<Rightarrow> Inl err
                 | Inr options \<Rightarrow>
                     if ''prefix'' \<in> dom options \<and> ''id_generator'' \<in> dom options
                     then Inl ConfigurationError
                     else
                       (case options ''prefix'' of
                          None \<Rightarrow> Inr options
                        | Some prefix \<Rightarrow>
                            Inr (options(''prefix'' := None,
                                   ''id_generator'' \<mapsto> SPrefixedId prefix))))))"

text \<open>
  An instance of the three coercions, for the examples. \<open>int_of_setting\<close> is Python's
  \<^verbatim>\<open>int\<close> on an int, a bool, a float, \<^verbatim>\<open>None\<close> and other objects (\<^verbatim>\<open>TypeError\<close>), and on
  a string that is a run of ASCII decimal digits with an optional minus sign; every
  other string raises \<^verbatim>\<open>ValueError\<close> here, although Python also takes surrounding blanks,
  a plus sign and underscores between digits. \<open>float_of_setting\<close> takes the same
  strings. \<open>asbool_of_setting\<close> is \<^verbatim>\<open>asbool\<close> on booleans, \<^verbatim>\<open>None\<close>, integers and
  lower-case strings without blanks. The theorems below hold for every coercion
  function; these are only used at the values of the examples.
\<close>

definition digit_value :: "char \<Rightarrow> nat option" where
  "digit_value c =
     (let d = (of_char c :: nat) in if 48 \<le> d \<and> d \<le> 57 then Some (d - 48) else None)"

fun digits_value :: "string \<Rightarrow> nat \<Rightarrow> nat option" where
  "digits_value [] acc = Some acc"
| "digits_value (c # cs) acc =
     (case digit_value c of
        None \<Rightarrow> None
      | Some d \<Rightarrow> digits_value cs (10 * acc + d))"

fun int_of_setting :: "setting \<Rightarrow> py_error + int" where
  "int_of_setting (SInt n) = Inr n"
| "int_of_setting (SBool b) = Inr (if b then 1 else 0)"
| "int_of_setting (SFloat r) = Inr (if 0 \<le> r then \<lfloor>r\<rfloor> else \<lceil>r\<rceil>)"
| "int_of_setting (SStr s) =
     (case s of
        [] \<Rightarrow> Inl ValueError
      | c # cs \<Rightarrow>
          if c = CHR ''-'' then
            (case cs of
               [] \<Rightarrow> Inl ValueError
             | _ \<Rightarrow> (case digits_value cs 0 of
                        None \<Rightarrow> Inl ValueError
                      | Some n \<Rightarrow> Inr (- int n)))
          else
            (case digits_value s 0 of
               None \<Rightarrow> Inl ValueError
             | Some n \<Rightarrow> Inr (int n)))"
| "int_of_setting _ = Inl TypeError"

fun float_of_setting :: "setting \<Rightarrow> py_error + real" where
  "float_of_setting (SFloat r) = Inr r"
| "float_of_setting v =
     (case int_of_setting v of Inl err \<Rightarrow> Inl err | Inr n \<Rightarrow> Inr (of_int n))"

fun asbool_of_setting :: "setting \<Rightarrow> bool" where
  "asbool_of_setting (SBool b) = b"
| "asbool_of_setting (SStr s) = (s \<in> set [''t'', ''true'', ''y'', ''yes'', ''on'', ''1''])"
| "asbool_of_setting (SInt n) = (n = 1)"
| "asbool_of_setting _ = False"

section \<open>The store and the identifier allocator\<close>

text \<open>
  Modelled from the spec: the store (section 6). The Redis server and its client are not
  code of this repository. The store maps a key to a value and, for some keys, to a TTL
  in seconds. \<open>SET\<close> writes a value and leaves the key without TTL, \<open>SETEX\<close> writes the
  value and the TTL in one command, \<open>DEL\<close> removes the key, \<open>EXPIRE\<close> (the TTL touch
  of the spec) gives an existing key a TTL. The spec gives a TTL as a duration after
  which the store removes the key and says nothing of a duration that is not positive;
  here, as in the Redis server, an \<open>EXPIRE\<close> with such a duration removes the key at
  once.
\<close>

record 'v redis =
  kv :: "string \<rightharpoonup> 'v"
  ttl :: "string \<rightharpoonup> int"

datatype 'v command =
  SET string 'v | SETEX string int 'v | DEL string | EXPIRE string int

fun command_key :: "'v command \<Rightarrow> string" where
  "command_key (SET k v) = k"
| "command_key (SETEX k seconds v) = k"
| "command_key (DEL k) = k"
| "command_key (EXPIRE k seconds) = k"

fun redis_apply :: "'v command \<Rightarrow> 'v redis \<Rightarrow> 'v redis" where
  "redis_apply (SET k v) r = r\<lparr>kv := (kv r)(k \<mapsto> v), ttl := (ttl r)(k := None)\<rparr>"
| "redis_apply (SETEX k seconds v) r =
     r\<lparr>kv := (kv r)(k \<mapsto> v), ttl := (ttl r)(k \<mapsto> seconds)\<rparr>"
| "redis_apply (DEL k) r = r\<lparr>kv := (kv r)(k := None), ttl := (ttl r)(k := None)\<rparr>"
| "redis_apply (EXPIRE k seconds) r =
     (if kv r k = None then r
      else if seconds \<le> 0 then r\<lparr>kv := (kv r)(k := None), ttl := (ttl r)(k := None)\<rparr>
      else r\<lparr>ttl := (ttl r)(k \<mapsto> seconds)\<rparr>)"

definition redis_run :: "'v command list \<Rightarrow> 'v redis \<Rightarrow> 'v redis" where
  "redis_run commands r = fold redis_apply commands r"

text \<open>
  Modelled from the spec: when a watched key counts as changed (section 6: the commit
  raises a conflict signal if the watched key changed since the watch began). A command
  changes its key when it writes it: a \<open>SET\<close> or a \<open>SETEX\<close> always does, a \<open>DEL\<close> or an
  \<open>EXPIRE\<close> only when the key holds a value (on an absent key they do nothing).
  \<open>watched_key_changed k others r\<close> runs the commands of the other clients from the
  store \<open>r\<close> of the moment of the watch and tells whether one of them changed \<open>k\<close>.
\<close>

fun command_changes :: "'v command \<Rightarrow> 'v redis \<Rightarrow> bool" where
  "command_changes (SET k v) r = True"
| "command_changes (SETEX k seconds v) r = True"
| "command_changes (DEL k) r = (kv r k \<noteq> None)"
| "command_changes (EXPIRE k seconds) r = (kv r k \<noteq> None)"

fun watched_key_changed :: "string \<Rightarrow> 'v command list \<Rightarrow> 'v redis \<Rightarrow> bool" where
  "watched_key_changed k [] r = False"
| "watched_key_changed k (c # others) r =
     ((command_key c = k \<and> command_changes c r) \<or>
      watched_key_changed k others (redis_apply c r))"

text \<open>
  Modelled from the spec: the commit of a single-key optimistic transaction (section 6).
  \<open>others\<close> are the commands other clients ran since the watch and \<open>watched_store\<close> is
  the store at the watch; when the watched key changed the commit raises \<^verbatim>\<open>WatchError\<close>
  and nothing is written, otherwise the queued commands run as one step on the store
  \<open>r\<close> of the moment of the commit.
\<close>

definition pipe_execute ::
  "string \<Rightarrow> 'v command list \<Rightarrow> 'v redis \<Rightarrow> 'v command list \<Rightarrow> 'v redis
     \<Rightarrow> py_error + 'v redis" where
  "pipe_execute watched others watched_store queued r =
     (if watched_key_changed watched others watched_store then Inl WatchError
      else Inr (redis_run queued r))"

text \<open>
  \<^verbatim>\<open>_insert_session_id_if_unique(redis, timeout, session_id, serialize, set_redis_ttl,
  data_payload=None, new_payload_func=None, python_expires=None)\<close> of
  \<^verbatim>\<open>pyramid_session_redis/util.py\<close>. The arguments after \<open>python_expires\<close> are what the
  call meets: the empty dict and the clock for \<^verbatim>\<open>empty_session_payload\<close>, the commands
  other clients run between \<^verbatim>\<open>pipe.watch\<close> and \<^verbatim>\<open>pipe.get\<close>, and those they run between
  \<^verbatim>\<open>pipe.get\<close> and \<^verbatim>\<open>pipe.execute\<close>. The result is the store after the call and what the
  call returns (\<open>Inr None\<close> for \<^verbatim>\<open>return None\<close>) or raises. \<^verbatim>\<open>except WatchError\<close> catches
  that exception only.
\<close>

definition insert_session_id_if_unique ::
  "'v redis \<Rightarrow> int option \<Rightarrow> string \<Rightarrow> ('m payload \<Rightarrow> 'v) \<Rightarrow> bool \<Rightarrow> 'm payload option
     \<Rightarrow> (unit \<Rightarrow> 'm payload) option \<Rightarrow> bool option
     \<Rightarrow> 'm \<Rightarrow> int \<Rightarrow> 'v command list \<Rightarrow> 'v command list
     \<Rightarrow> 'v redis \<times> (py_error + string option)" where
  "insert_session_id_if_unique redis timeout session_id serialize set_redis_ttl data_payload
       new_payload_func python_expires empty_dict time_now others_before_get
       others_before_execute =
     (let data_payload =
            (case data_payload of
               Some p \<Rightarrow> p
             | None \<Rightarrow>
                 (case new_payload_func of
                    Some f \<Rightarrow> f ()
                  | None \<Rightarrow> empty_session_payload empty_dict timeout python_expires time_now));
          payload = serialize data_payload;
          watched_store = redis;
          redis = redis_run others_before_get redis;
          value = kv redis session_id
      in if value \<noteq> None then (redis, Inr None)
         else
           (let queued =
                  (case timeout of
                     Some t \<Rightarrow>
                       if t \<noteq> 0 \<and> set_redis_ttl then [SETEX session_id t payload]
                       else [SET session_id payload]
                   | None \<Rightarrow> [SET session_id payload]);
                redis = redis_run others_before_execute redis
            in case pipe_execute session_id (others_before_get @ others_before_execute)
                      watched_store queued redis of
                 Inr redis \<Rightarrow> (redis, Inr (Some session_id))
               | Inl err \<Rightarrow>
                   if err = WatchError then (redis, Inr None) else (redis, Inl err)))"

text \<open>
  \<^verbatim>\<open>_insert_session_id_if_unique(redis, timeout, session_id, serialize)\<close> of the legacy
  module \<^verbatim>\<open>pyramid_redis_sessions/util.py\<close>: it has no TTL flag and no payload
  arguments; it queues \<^verbatim>\<open>pipe.set(session_id, serialize({}))\<close> and then
  \<^verbatim>\<open>pipe.expire(session_id, timeout)\<close> in the same transaction. The timeout is an
  integer (the legacy settings parser coerces it with \<^verbatim>\<open>int\<close>).
\<close>

definition insert_session_id_if_unique_legacy ::
  "'v redis \<Rightarrow> int \<Rightarrow> string \<Rightarrow> ('m payload \<Rightarrow> 'v) \<Rightarrow> 'v command list \<Rightarrow> 'v command list
     \<Rightarrow> 'v redis \<times> (py_error + string option)" where
  "insert_session_id_if_unique_legacy redis timeout session_id serialize others_before_get
       others_before_execute =
     (let watched_store = redis;
          redis = redis_run others_before_get redis;
          value = kv redis session_id
      in if value \<noteq> None then (redis, Inr None)
         else
           (let empty_session = serialize Map.empty;
                queued = [SET session_id empty_session, EXPIRE session_id timeout];
                redis = redis_run others_before_execute redis
            in case pipe_execute session_id (others_before_get @ others_before_execute)
                      watched_store queued redis of
                 Inr redis \<Rightarrow> (redis, Inr (Some session_id))
               | Inl err \<Rightarrow>
                   if err = WatchError then (redis, Inr None) else (redis, Inl err)))"

text \<open>
  What one turn of the loop of \<^verbatim>\<open>create_unique_session_id\<close> meets: the id that
  \<^verbatim>\<open>generator()\<close> returns, the clock, and the commands of the other clients.
\<close>

record 'v attempt =
  generated :: string
  clock :: int
  before_get :: "'v command list"
  before_execute :: "'v command list"

text \<open>
  \<^verbatim>\<open>create_unique_session_id(redis, timeout, serialize, generator, set_redis_ttl,
  data_payload, new_payload_func, python_expires)\<close>. The loop \<^verbatim>\<open>while 1\<close> has no bound;
  here it runs along a schedule, one \<open>attempt\<close> per turn, standing where the source has
  \<^verbatim>\<open>generator\<close>. A schedule that ends before an id was inserted gives \<open>Inr None\<close>: the
  loop has not returned yet.
\<close>

fun create_unique_session_id ::
  "'v redis \<Rightarrow> int option \<Rightarrow> ('m payload \<Rightarrow> 'v) \<Rightarrow> 'v attempt list \<Rightarrow> bool
     \<Rightarrow> 'm payload option \<Rightarrow> (unit \<Rightarrow> 'm payload) option \<Rightarrow> bool option \<Rightarrow> 'm
     \<Rightarrow> 'v redis \<times> (py_error + string option)" where
  "create_unique_session_id redis timeout serialize [] set_redis_ttl data_payload
       new_payload_func python_expires empty_dict = (redis, Inr None)"
| "create_unique_session_id redis timeout serialize (a # schedule) set_redis_ttl data_payload
       new_payload_func python_expires empty_dict =
     (let session_id = generated a in
      case insert_session_id_if_unique redis timeout session_id serialize set_redis_ttl
             data_payload new_payload_func python_expires empty_dict (clock a)
             (before_get a) (before_execute a) of
        (redis, Inr None) \<Rightarrow>
          create_unique_session_id redis timeout serialize schedule set_redis_ttl
            data_payload new_payload_func python_expires empty_dict
      | (redis, Inr (Some attempt)) \<Rightarrow> (redis, Inr (Some attempt))
      | (redis, Inl err) \<Rightarrow> (redis, Inl err))"

section \<open>The identifier generator\<close>

text \<open>
  Modelled from the spec: \<^verbatim>\<open>token_urlsafe\<close> (section 4.1). It is imported from
  \<^verbatim>\<open>compat.py\<close>, which is not among the source files; the spec and the docstring of
  \<^verbatim>\<open>_generate_session_id\<close> say what it returns: random bytes from the operating
  system's source, base64 encoded with the URL-safe alphabet, without padding. The
  random source is a sequence of bytes and the position of the next unread byte;
  \<^verbatim>\<open>os.urandom(n)\<close> reads \<open>n\<close> bytes. The encoding takes three bytes to four characters,
  and pads a last group of one or two bytes with \<^verbatim>\<open>=\<close>, which \<^verbatim>\<open>token_urlsafe\<close> strips.
\<close>

type_synonym byte = "8 word"

type_synonym random_source = "(nat \<Rightarrow> byte) \<times> nat"

definition urlsafe_alphabet :: string where
  "urlsafe_alphabet =
     ''ABCDEFGHIJKLMNOPQRSTUVWXYZabcdefghijklmnopqrstuvwxyz0123456789-_''"

definition b64_group :: "byte \<Rightarrow> byte \<Rightarrow> byte \<Rightarrow> string" where
  "b64_group a b c =
     (let n = unat a * 65536 + unat b * 256 + unat c
      in [urlsafe_alphabet ! (n div 262144), urlsafe_alphabet ! (n div 4096 mod 64),
          urlsafe_alphabet ! (n div 64 mod 64), urlsafe_alphabet ! (n mod 64)])"

fun urlsafe_b64encode :: "byte list \<Rightarrow> string" where
  "urlsafe_b64encode [] = []"
| "urlsafe_b64encode [a] = take 2 (b64_group a 0 0) @ ''==''"
| "urlsafe_b64encode [a, b] = take 3 (b64_group a b 0) @ ''=''"
| "urlsafe_b64encode (a # b # c # rest) = b64_group a b c @ urlsafe_b64encode rest"

definition rstrip_pad :: "string \<Rightarrow> string" where
  "rstrip_pad s = rev (dropWhile (\<lambda>c. c = CHR ''='') (rev s))"

definition os_urandom :: "nat \<Rightarrow> random_source \<Rightarrow> byte list \<times> random_source" where
  "os_urandom n source =
     (case source of (bytes, pos) \<Rightarrow> (map bytes [pos ..< pos + n], (bytes, pos + n)))"

definition token_urlsafe :: "nat \<Rightarrow> random_source \<Rightarrow> string \<times> random_source" where
  "token_urlsafe nbytes source =
     (case os_urandom nbytes source of
        (tok, source') \<Rightarrow> (rstrip_pad (urlsafe_b64encode tok), source'))"

text \<open>
  \<^verbatim>\<open>_generate_session_id()\<close> of \<^verbatim>\<open>pyramid_session_redis/util.py\<close>:
  \<^verbatim>\<open>return token_urlsafe(48)\<close>.
\<close>

definition generate_session_id :: "random_source \<Rightarrow> string \<times> random_source" where
  "generate_session_id source = token_urlsafe 48 source"

text \<open>
  \<^verbatim>\<open>_generate_session_id()\<close> of the legacy module \<^verbatim>\<open>pyramid_redis_sessions/util.py\<close>:
  \<^verbatim>\<open>rand = os.urandom(20); return sha256(sha256(rand).digest()).hexdigest()\<close>. The hash
  of \<^verbatim>\<open>hashlib\<close> is a parameter, the function from bytes to the bytes of the digest;
  \<^verbatim>\<open>hexdigest\<close> writes every byte of the digest as two lower-case hexadecimal digits.
\<close>

definition hex_digits :: string where
  "hex_digits = ''0123456789abcdef''"

definition hexdigest :: "byte list \<Rightarrow> string" where
  "hexdigest digest =
     concat (map (\<lambda>b. [hex_digits ! (unat b div 16), hex_digits ! (unat b mod 16)]) digest)"

definition generate_session_id_legacy ::
  "(byte list \<Rightarrow> byte list) \<Rightarrow> random_source \<Rightarrow> string \<times> random_source" where
  "generate_session_id_legacy sha256 source =
     (case os_urandom 20 source of
        (rand, source') \<Rightarrow> (hexdigest (sha256 (sha256 rand)), source'))"

text \<open>
  A stand-in for the hash in the examples: a function from bytes to 32 bytes. The
  theorems hold for every function in its place.
\<close>

definition example_sha256 :: "byte list \<Rightarrow> byte list" where
  "example_sha256 bs = take 32 (bs @ replicate 32 0)"

text \<open>
  The serializer is pluggable. For the examples: the items of the payload under its five
  keys, in a list.
\<close>

definition example_serialize :: "'m payload \<Rightarrow> (string \<times> 'm pyval) list" where
  "example_serialize p = map (\<lambda>k. (k, dict_get p k)) [''m'', ''c'', ''v'', ''t'', ''x'']"

section \<open>Properties of the payload codec\<close>

subsection \<open>Round trip\<close>

text \<open>
  Claim C2, as stated, fails: called with its four positional arguments (no trigger,
  expiry tracking off), \<^verbatim>\<open>encode_session_payload\<close> drops a zero timeout and never
  writes \<^verbatim>\<open>x\<close>, so a record with \<^verbatim>\<open>timeout = 0\<close> and \<^verbatim>\<open>expires = 500\<close> decodes with both
  fields \<^verbatim>\<open>None\<close>.
\<close>

theorem roundtrip_loses_zero_timeout_and_expires:
  "\<exists>p d. encode_session_payload ([] :: (string \<times> int) list) 100 (Some 0) (Some 500)
             None None 150 = Inr p \<and>
          decode_session_payload p = Inr d \<and>
          d ''timeout'' = Some PyNone \<and> d ''timeout'' \<noteq> Some (pyval_of (Some 0)) \<and>
          d ''expires'' = Some PyNone \<and> d ''expires'' \<noteq> Some (pyval_of (Some 500))"
  by (simp add: encode_session_payload_def decode_session_payload_def dict_get_def)

text \<open>
  Claim C2, amended: for every managed dict \<open>m\<close>, \<open>created\<close> \<open>c\<close>, timeout \<open>t\<close> and expires
  \<open>x\<close>, the four-argument encode never raises, and decoding its payload returns exactly
  \<open>managed_dict = m\<close>, \<open>created = c\<close>, \<open>version\<close> the current version, \<open>timeout = t\<close> when
  \<open>t\<close> is unset or nonzero and \<^verbatim>\<open>None\<close> when \<open>t = 0\<close>, and \<open>expires = None\<close> whatever \<open>x\<close> is
  (the codec writes \<^verbatim>\<open>x\<close> only when \<^verbatim>\<open>python_expires\<close> is set).
\<close>

theorem decode_encode_default_arguments:
  "\<exists>p. encode_session_payload m c t x None None now = Inr p \<and>
        decode_session_payload p =
          Inr [''managed_dict'' \<mapsto> PyDict m, ''created'' \<mapsto> PyInt c,
               ''version'' \<mapsto> PyInt SESSION_API_VERSION,
               ''timeout'' \<mapsto> (if t = Some 0 then PyNone else pyval_of t),
               ''expires'' \<mapsto> PyNone]"
  by (cases t; cases x)
     (auto simp: encode_session_payload_def decode_session_payload_def dict_get_def Let_def)

text \<open>A record with timeout 300 and no expires: every field comes back as it went in.\<close>

theorem decode_encode_default_arguments_witness:
  "\<exists>p. encode_session_payload [(''k'', 1::int)] 100 (Some 300) None None None 150 = Inr p \<and>
        decode_session_payload p =
          Inr [''managed_dict'' \<mapsto> PyDict [(''k'', 1)], ''created'' \<mapsto> PyInt 100,
               ''version'' \<mapsto> PyInt 1, ''timeout'' \<mapsto> PyInt 300, ''expires'' \<mapsto> PyNone]"
  using decode_encode_default_arguments [of "[(''k'', 1::int)]" 100 "Some 300" None 150]
  by (simp add: SESSION_API_VERSION_def)

subsection \<open>The expiration policy\<close>

text \<open>
  Claim C3: inside the expiry-tracking branch (a timeout is set and \<^verbatim>\<open>python_expires\<close>
  is set), for every clock value \<open>now\<close>, current expires \<open>x\<close>, timeout \<open>t\<close> and trigger:
  with the trigger unset or zero the payload's expires is \<open>now + t\<close>, whatever the current
  expires is; with a trigger \<open>gv\<close> set, the payload's expires is \<open>now + t\<close> when
  \<open>now \<ge> x - gv\<close> (the boundary \<open>now = x - gv\<close> included), and is the prior value \<open>x\<close>
  otherwise. (The prior value is carried by the guard \<^verbatim>\<open>if expires and python_expires\<close>,
  which reads an expires of \<open>0\<close> as absent.)
\<close>

theorem expiry_recompute_policy:
  assumes "t \<noteq> 0" and "flag_set pe"
  shows "(\<not> truthy g \<longrightarrow>
            (\<exists>p. encode_session_payload m c (Some t) e g pe now = Inr p \<and>
                 p ''x'' = Some (PyInt (now + t)))) \<and>
         (gv \<noteq> 0 \<and> x - gv \<le> now \<longrightarrow>
            (\<exists>p. encode_session_payload m c (Some t) (Some x) (Some gv) pe now = Inr p \<and>
                 p ''x'' = Some (PyInt (now + t)))) \<and>
         (gv \<noteq> 0 \<and> now < x - gv \<and> x \<noteq> 0 \<longrightarrow>
            (\<exists>p. encode_session_payload m c (Some t) (Some x) (Some gv) pe now = Inr p \<and>
                 p ''x'' = Some (PyInt x)))"
  using assms
  by (cases e; cases g)
     (auto simp: encode_session_payload_def Let_def)

text \<open>
  The spec's example: timeout 400, trigger 60, a record created at 1000 whose expires is
  1400. At \<open>now = 1300\<close> the prior 1400 is kept, at \<open>now = 1350\<close> and at the boundary
  \<open>now = 1340\<close> the expires is recomputed, and with no trigger it is recomputed at 1300.
\<close>

theorem expiry_recompute_policy_witness:
  "(\<exists>p. encode_session_payload [(''k'', 1::int)] 1000 (Some 400) (Some 1400) (Some 60)
         (Some True) 1300 = Inr p \<and> p ''x'' = Some (PyInt 1400)) \<and>
   (\<exists>p. encode_session_payload [(''k'', 1::int)] 1000 (Some 400) (Some 1400) (Some 60)
         (Some True) 1350 = Inr p \<and> p ''x'' = Some (PyInt 1750)) \<and>
   (\<exists>p. encode_session_payload [(''k'', 1::int)] 1000 (Some 400) (Some 1400) (Some 60)
         (Some True) 1340 = Inr p \<and> p ''x'' = Some (PyInt 1740)) \<and>
   (\<exists>p. encode_session_payload [(''k'', 1::int)] 1000 (Some 400) (Some 1400) None
         (Some True) 1300 = Inr p \<and> p ''x'' = Some (PyInt 1700))"
  using expiry_recompute_policy [of 400 "Some True" None "[(''k'', 1::int)]" 1000
          "Some 1400" 1300 60 1400]
        expiry_recompute_policy [of 400 "Some True" None "[(''k'', 1::int)]" 1000
          "Some 1400" 1350 60 1400]
        expiry_recompute_policy [of 400 "Some True" None "[(''k'', 1::int)]" 1000
          "Some 1400" 1340 60 1400]
  by simp

subsection \<open>When the payload carries \<^verbatim>\<open>x\<close>\<close>

text \<open>
  Claim C4, as stated, fails: with expiry tracking on, a trigger of 60 configured and the
  recompute not due (\<open>900 < 1000 - 60\<close>), the payload still contains \<^verbatim>\<open>x\<close>: the codec
  itself writes the expires it was given back into the mapping.
\<close>

theorem x_key_present_without_recompute:
  "\<exists>p. encode_session_payload ([] :: (string \<times> int) list) 600 (Some 400) (Some 1000)
           (Some 60) (Some True) 900 = Inr p \<and>
        p ''x'' = Some (PyInt 1000) \<and> truthy (Some 60) \<and> \<not> ((1000::int) - 60 \<le> 900)"
  by (simp add: encode_session_payload_def)

text \<open>
  Claim C4, amended: whenever \<^verbatim>\<open>encode_session_payload\<close> returns a mapping, the key \<^verbatim>\<open>x\<close>
  is in it exactly when expiry tracking is enabled (\<^verbatim>\<open>python_expires\<close> set) and either the
  expires passed in is set and nonzero (it is written back), or a timeout is set and
  either no trigger is configured (\<^verbatim>\<open>timeout_trigger\<close> unset or zero) or the recompute
  condition \<open>now \<ge> expires - timeout_trigger\<close> holds. In all other cases the mapping has no
  \<^verbatim>\<open>x\<close> key.
\<close>

theorem x_key_present_iff:
  assumes "encode_session_payload m c t e g pe now = Inr p"
  shows "''x'' \<in> dom p \<longleftrightarrow>
           flag_set pe \<and>
           (truthy e \<or>
            (truthy t \<and>
              (\<not> truthy g \<or> (\<exists>ev gv. e = Some ev \<and> g = Some gv \<and> ev - gv \<le> now))))"
  using assms
  by (cases t; cases e; cases g; cases pe)
     (auto simp: encode_session_payload_def Let_def split: if_splits)

theorem x_key_present_iff_witness:
  "(\<exists>p. encode_session_payload [(''k'', 1::int)] 600 (Some 400) (Some 1000) (Some 60)
          (Some True) 900 = Inr p \<and> ''x'' \<in> dom p) \<and>
   (\<exists>p. encode_session_payload [(''k'', 1::int)] 600 (Some 400) (Some 1000) (Some 60)
          (Some False) 900 = Inr p \<and> ''x'' \<notin> dom p)"
proof -
  obtain p where p: "encode_session_payload [(''k'', 1::int)] 600 (Some 400) (Some 1000)
      (Some 60) (Some True) 900 = Inr p"
    by (simp add: encode_session_payload_def)
  obtain q where q: "encode_session_payload [(''k'', 1::int)] 600 (Some 400) (Some 1000)
      (Some 60) (Some False) 900 = Inr q"
    by (simp add: encode_session_payload_def)
  have "''x'' \<in> dom p" using x_key_present_iff [OF p] by simp
  moreover have "''x'' \<notin> dom q" using x_key_present_iff [OF q] by simp
  ultimately show ?thesis using p q by simp
qed

subsection \<open>Totality\<close>

text \<open>
  Claim C9: \<^verbatim>\<open>encode_session_payload\<close> is not total. Every call with a timeout set,
  \<^verbatim>\<open>python_expires\<close> set, a nonzero \<^verbatim>\<open>timeout_trigger\<close> and \<^verbatim>\<open>expires = None\<close> raises
  \<^verbatim>\<open>TypeError\<close>; and these are the only calls that raise: the call returns a payload if
  and only if \<^verbatim>\<open>expires\<close> is a number whenever a nonzero trigger is used with expiry
  tracking and a timeout.
\<close>

theorem encode_raises_type_error:
  "(truthy t \<and> flag_set pe \<and> truthy g \<longrightarrow>
      encode_session_payload m c t None g pe now = Inl TypeError) \<and>
   ((\<exists>p. encode_session_payload m c t e g pe now = Inr p) \<longleftrightarrow>
      \<not> (truthy t \<and> flag_set pe \<and> truthy g \<and> e = None))"
  by (cases t; cases e; cases g; cases pe)
     (auto simp: encode_session_payload_def Let_def)

theorem encode_raises_type_error_witness:
  "encode_session_payload [(''k'', 1::int)] 100 (Some 400) None (Some 60) (Some True) 150
     = Inl TypeError \<and>
   (\<exists>p. encode_session_payload [(''k'', 1::int)] 100 (Some 400) (Some 500) (Some 60)
          (Some True) 150 = Inr p)"
  using encode_raises_type_error [of "Some 400" "Some True" "Some 60" "[(''k'', 1::int)]"
          100 150 "Some 500"]
  by simp

subsection \<open>The expires invariant along a record's life\<close>

lemma encode_expires_cases:
  assumes "encode_session_payload m c (Some tv) e g pe now = Inr p"
    and "tv \<noteq> 0" and "flag_set pe" and "payload_expires p = Some x'"
  shows "x' = now + tv \<or> e = Some x'"
  using assms
  by (cases e; cases g)
     (auto simp: encode_session_payload_def payload_expires_def dict_get_def Let_def
           split: if_splits)

lemma encode_untracked:
  assumes "encode_session_payload m c t None g pe now = Inr p"
    and "\<not> (truthy t \<and> flag_set pe)"
  shows "payload_expires p = None"
  using assms
  by (cases t; cases g)
     (auto simp: encode_session_payload_def payload_expires_def dict_get_def Let_def
           split: if_splits)

lemma persists_untracked:
  assumes "\<not> (truthy t \<and> flag_set pe)"
  shows "\<forall>p \<in> set (persists c t g pe None steps). payload_expires p = None"
proof (induction steps)
  case Nil
  then show ?case by simp
next
  case (Cons s steps)
  obtain m now where s: "s = (m, now)" by (cases s)
  show ?case
  proof (cases "encode_session_payload m c t None g pe now")
    case (Inl err)
    then show ?thesis by (simp add: s)
  next
    case (Inr p)
    have "payload_expires p = None"
      using encode_untracked[OF Inr assms] .
    with Inr Cons.IH show ?thesis by (simp add: s)
  qed
qed

text \<open>
  The invariant of the persist loop: the expires handed to the next encode is at least
  \<open>lo\<close> and at most \<open>now0 + tv\<close>, where \<open>now0\<close> is the time of the last write. Every later
  expires is then at least \<open>lo\<close>, and the later expires values are in ascending order.
\<close>

lemma persists_bounds:
  assumes "sorted (map snd steps)" and "\<forall>s \<in> set steps. now0 \<le> snd s"
    and "tv \<noteq> 0" and "flag_set pe"
    and "\<forall>x. e = Some x \<longrightarrow> lo \<le> x \<and> x \<le> now0 + tv"
    and "lo \<le> now0 + tv"
  shows "(\<forall>p \<in> set (persists c (Some tv) g pe e steps).
            \<forall>x. payload_expires p = Some x \<longrightarrow> lo \<le> x) \<and>
         sorted (List.map_filter payload_expires (persists c (Some tv) g pe e steps))"
  using assms
proof (induction steps arbitrary: e now0 lo)
  case Nil
  then show ?case by simp
next
  case (Cons s steps)
  obtain m now where s: "s = (m, now)" by (cases s)
  have now: "now0 \<le> now" using Cons.prems(2) by (simp add: s)
  have srt: "sorted (map snd steps)" and ge: "\<forall>s \<in> set steps. now \<le> snd s"
    using Cons.prems(1) by (auto simp: s)
  show ?case
  proof (cases "encode_session_payload m c (Some tv) e g pe now")
    case (Inl err)
    then show ?thesis by (simp add: s)
  next
    case (Inr p)
    show ?thesis
    proof (cases "payload_expires p")
      case None
      have e': "\<forall>x. payload_expires p = Some x \<longrightarrow> lo \<le> x \<and> x \<le> now + tv"
        by (simp add: None)
      have "lo \<le> now + tv" using Cons.prems(6) now by linarith
      from Cons.IH[OF srt ge Cons.prems(3,4) e' this]
      show ?thesis using Inr None by (simp add: s)
    next
      case (Some x')
      have cases: "x' = now + tv \<or> e = Some x'"
        using encode_expires_cases[OF Inr Cons.prems(3,4) Some] .
      have lo: "lo \<le> x'" and hi: "x' \<le> now + tv"
        using cases Cons.prems(5,6) now by auto
      have e': "\<forall>x. payload_expires p = Some x \<longrightarrow> x' \<le> x \<and> x \<le> now + tv"
        using Some hi by simp
      from Cons.IH[OF srt ge Cons.prems(3,4) e' hi]
      have IH: "(\<forall>q \<in> set (persists c (Some tv) g pe (payload_expires p) steps).
                   \<forall>x. payload_expires q = Some x \<longrightarrow> x' \<le> x)"
        and IHs: "sorted (List.map_filter payload_expires
                    (persists c (Some tv) g pe (payload_expires p) steps))"
        by blast+
      have all_ge: "\<forall>y \<in> set (List.map_filter payload_expires
                    (persists c (Some tv) g pe (payload_expires p) steps)). x' \<le> y"
        using IH by (auto simp: List.map_filter_def)
      have 1: "\<forall>q \<in> set (persists c (Some tv) g pe e (s # steps)).
                   \<forall>x. payload_expires q = Some x \<longrightarrow> lo \<le> x"
        using Inr Some lo IH by (auto simp: s)
      have 2: "sorted (List.map_filter payload_expires
                 (persists c (Some tv) g pe e (s # steps)))"
        using Inr Some IHs all_ge by (simp add: s)
      from 1 2 show ?thesis by blast
    qed
  qed
qed

text \<open>
  Claim C7: take a record created at time \<open>created\<close> and persisted at non-decreasing
  times with the same timeout. Every payload of its history that contains an expires
  value has that value at least \<open>created + timeout\<close>, and the expires values, in the order
  they were written, never decrease.
\<close>

theorem expires_lower_bound_and_monotone:
  assumes "sorted (created # map snd steps)"
  shows "(\<forall>p \<in> set (record_history empty_dict timeout g pe created steps).
            \<forall>x. payload_expires p = Some x \<longrightarrow>
              (\<exists>tv. timeout = Some tv \<and> created + tv \<le> x)) \<and>
         sorted (List.map_filter payload_expires
                   (record_history empty_dict timeout g pe created steps))"
proof (cases "truthy timeout \<and> flag_set pe")
  case False
  then have p0: "payload_expires (empty_session_payload empty_dict timeout pe created) = None"
    by (cases timeout)
       (auto simp: empty_session_payload_def payload_expires_def dict_get_def Let_def)
  have "\<forall>p \<in> set (persists created timeout g pe None steps). payload_expires p = None"
    using persists_untracked[OF False] by blast
  then have all: "\<forall>p \<in> set (record_history empty_dict timeout g pe created steps).
                    payload_expires p = None"
    by (simp add: record_history_def Let_def p0)
  then have "List.map_filter payload_expires
               (record_history empty_dict timeout g pe created steps) = []"
    by (auto simp: List.map_filter_def filter_empty_conv)
  with all show ?thesis by simp
next
  case True
  then obtain tv where t: "timeout = Some tv" and tv: "tv \<noteq> 0" and pe: "flag_set pe"
    by (cases timeout) auto
  have p0: "payload_expires (empty_session_payload empty_dict timeout pe created)
              = Some (created + tv)"
    using t tv pe
    by (simp add: empty_session_payload_def payload_expires_def dict_get_def Let_def)
  have srt: "sorted (map snd steps)" and ge: "\<forall>s \<in> set steps. created \<le> snd s"
    using assms by auto
  have e: "\<forall>x. Some (created + tv) = Some x \<longrightarrow> created + tv \<le> x \<and> x \<le> created + tv"
    by simp
  from persists_bounds[OF srt ge tv pe e]
  have B: "\<forall>p \<in> set (persists created (Some tv) g pe (Some (created + tv)) steps).
            \<forall>x. payload_expires p = Some x \<longrightarrow> created + tv \<le> x"
    and S: "sorted (List.map_filter payload_expires
              (persists created (Some tv) g pe (Some (created + tv)) steps))"
    by simp_all
  have all_ge: "\<forall>y \<in> set (List.map_filter payload_expires
              (persists created (Some tv) g pe (Some (created + tv)) steps)).
                created + tv \<le> y"
    using B by (auto simp: List.map_filter_def)
  have 1: "\<forall>p \<in> set (record_history empty_dict timeout g pe created steps).
            \<forall>x. payload_expires p = Some x \<longrightarrow>
              (\<exists>tv. timeout = Some tv \<and> created + tv \<le> x)"
    using B p0 t by (auto simp: record_history_def Let_def)
  have 2: "sorted (List.map_filter payload_expires
                   (record_history empty_dict timeout g pe created steps))"
    using S all_ge p0 t by (simp add: record_history_def Let_def)
  from 1 2 show ?thesis by blast
qed

text \<open>
  A record created at 1000 with timeout 400 and trigger 60, persisted at 1100, 1350, 1351
  and 1700: the expires values written are 1400 (creation), 1400 (kept), 1750
  (recomputed), 1750 (kept) and 2100 (recomputed).
\<close>

theorem expires_lower_bound_and_monotone_witness:
  "sorted (1000 # map snd [([''a''], 1100), ([''b''], 1350), ([], 1351), ([], 1700::int)]) \<and>
   List.map_filter payload_expires
      (record_history ([] :: string list) (Some 400) (Some 60) (Some True) 1000
         [([''a''], 1100), ([''b''], 1350), ([], 1351), ([], 1700)])
     = [1400, 1400, 1750, 1750, 2100] \<and>
   sorted (List.map_filter payload_expires
      (record_history ([] :: string list) (Some 400) (Some 60) (Some True) 1000
         [([''a''], 1100), ([''b''], 1350), ([], 1351), ([], 1700)]))"
proof -
  have s: "sorted (1000 # map snd
             [([''a''], 1100), ([''b''], 1350), ([], 1351), ([], 1700::int)])"
    by simp
  have v: "List.map_filter payload_expires
      (record_history ([] :: string list) (Some 400) (Some 60) (Some True) 1000
         [([''a''], 1100), ([''b''], 1350), ([], 1351), ([], 1700)])
     = [1400, 1400, 1750, 1750, 2100]"
    by (simp add: record_history_def encode_session_payload_def empty_session_payload_def
          payload_expires_def dict_get_def)
  from expires_lower_bound_and_monotone [OF s, of "[]" "Some 400" "Some 60" "Some True"]
  show ?thesis using s v by blast
qed

section \<open>Properties of the settings parser\<close>

lemma coerce_bools_other: "k \<notin> set keys \<Longrightarrow> coerce_bools asbool keys options k = options k"
  by (induction keys arbitrary: options) (auto split: option.splits)

lemma coerce_bools_dom: "dom (coerce_bools asbool keys options) = dom options"
  by (induction keys arbitrary: options) (auto split: option.splits)

lemma coerce_ints_other:
  "coerce_ints py_int keys options = Inr options' \<Longrightarrow> k \<notin> set keys \<Longrightarrow> options' k = options k"
  by (induction keys arbitrary: options) (auto split: option.splits sum.splits)

lemma coerce_ints_dom:
  "coerce_ints py_int keys options = Inr options' \<Longrightarrow> dom options' = dom options"
  by (induction keys arbitrary: options) (auto split: option.splits sum.splits)

lemma coerce_ints_none_other:
  "coerce_ints_none py_int keys options = Inr options' \<Longrightarrow> k \<notin> set keys \<Longrightarrow>
     options' k = options k"
  by (induction keys arbitrary: options) (auto split: option.splits sum.splits if_splits)

lemma coerce_ints_none_dom:
  "coerce_ints_none py_int keys options = Inr options' \<Longrightarrow> dom options' = dom options"
  by (induction keys arbitrary: options) (auto split: option.splits sum.splits if_splits)

lemma coerce_float_other:
  "coerce_float py_float options = Inr options' \<Longrightarrow> k \<noteq> ''socket_timeout'' \<Longrightarrow>
     options' k = options k"
  by (auto simp: coerce_float_def split: option.splits sum.splits)

lemma coerce_float_dom:
  "coerce_float py_float options = Inr options' \<Longrightarrow> dom options' = dom options"
  by (auto simp: coerce_float_def split: option.splits sum.splits if_splits)

text \<open>What the loop over \<^verbatim>\<open>configs_int_none\<close> leaves under one of its keys.\<close>

lemma coerce_ints_none_key:
  assumes "coerce_ints_none py_int keys options = Inr options'" and "k \<in> set keys"
    and "distinct keys"
  shows "options' k =
           (case options k of
              None \<Rightarrow> None
            | Some v \<Rightarrow>
                if v = SStr ''None'' then Some SNone
                else (case py_int v of
                        Inl err \<Rightarrow> None
                      | Inr n \<Rightarrow> if n = 0 then Some SNone else Some (SInt n)))"
  using assms
proof (induction keys arbitrary: options)
  case Nil
  then show ?case by simp
next
  case (Cons i rest)
  show ?case
  proof (cases "k = i")
    case True
    then have "k \<notin> set rest" using Cons.prems(3) by simp
    then show ?thesis
      using Cons.prems(1) True
      by (auto split: option.splits sum.splits if_splits dest: coerce_ints_none_other)
  next
    case False
    then have "k \<in> set rest" using Cons.prems(2) by simp
    then show ?thesis
      using Cons.prems(1,3) False Cons.IH
      by (auto split: option.splits sum.splits if_splits)
  qed
qed

lemma coerce_ints_result:
  assumes "distinct keys"
  shows "case coerce_ints py_int keys options of
           Inr options' \<Rightarrow> \<forall>k \<in> set keys. \<forall>v. options k = Some v \<longrightarrow> (\<exists>n. py_int v = Inr n)
         | Inl err \<Rightarrow> \<exists>k \<in> set keys. \<exists>v. options k = Some v \<and> py_int v = Inl err"
  using assms
proof (induction keys arbitrary: options)
  case Nil
  then show ?case by simp
next
  case (Cons i rest)
  have d: "distinct rest" and ni: "i \<notin> set rest" using Cons.prems by auto
  show ?case
  proof (cases "options i")
    case None
    with Cons.IH[OF d, of options] show ?thesis
      by (auto split: sum.splits)
  next
    case (Some v)
    show ?thesis
    proof (cases "py_int v")
      case (Inl err)
      with Some show ?thesis by auto
    next
      case (Inr n)
      define options1 where "options1 = options(i \<mapsto> SInt n)"
      have same: "\<And>k. k \<in> set rest \<Longrightarrow> options1 k = options k"
        using ni by (auto simp: options1_def)
      have step: "coerce_ints py_int (i # rest) options = coerce_ints py_int rest options1"
        using Some Inr by (simp add: options1_def)
      show ?thesis
      proof (cases "coerce_ints py_int rest options1")
        case (Inl err)
        with Cons.IH[OF d, of options1] obtain k v
          where "k \<in> set rest" "options1 k = Some v" "py_int v = Inl err"
          by auto
        then have "k \<in> set (i # rest) \<and> options k = Some v \<and> py_int v = Inl err"
          using same by simp
        then show ?thesis unfolding step Inl by auto
      next
        case (Inr options2)
        with Cons.IH[OF d, of options1]
        have "\<forall>k \<in> set rest. \<forall>v. options1 k = Some v \<longrightarrow> (\<exists>n. py_int v = Inr n)"
          by simp
        then have "\<forall>k \<in> set rest. \<forall>v. options k = Some v \<longrightarrow> (\<exists>n. py_int v = Inr n)"
          using same by simp
        moreover have "\<forall>w. options i = Some w \<longrightarrow> (\<exists>n. py_int w = Inr n)"
          using Some \<open>py_int v = Inr n\<close> by simp
        ultimately show ?thesis unfolding step Inr by simp
      qed
    qed
  qed
qed

lemma coerce_ints_none_result:
  assumes "distinct keys"
  shows "case coerce_ints_none py_int keys options of
           Inr options' \<Rightarrow>
             \<forall>k \<in> set keys. \<forall>v. options k = Some v \<and> v \<noteq> SStr ''None'' \<longrightarrow>
               (\<exists>n. py_int v = Inr n)
         | Inl err \<Rightarrow>
             \<exists>k \<in> set keys. \<exists>v. options k = Some v \<and> v \<noteq> SStr ''None'' \<and> py_int v = Inl err"
  using assms
proof (induction keys arbitrary: options)
  case Nil
  then show ?case by simp
next
  case (Cons i rest)
  have d: "distinct rest" and ni: "i \<notin> set rest" using Cons.prems by auto
  show ?case
  proof (cases "options i")
    case None
    with Cons.IH[OF d, of options] show ?thesis
      by (auto split: sum.splits)
  next
    case (Some v)
    show ?thesis
    proof (cases "v \<noteq> SStr ''None'' \<and> (\<exists>err. py_int v = Inl err)")
      case True
      with Some show ?thesis by auto
    next
      case False
      have "\<exists>w. coerce_ints_none py_int (i # rest) options =
                 coerce_ints_none py_int rest (options(i \<mapsto> w))"
      proof (cases "v = SStr ''None''")
        case True
        show ?thesis by (rule exI[of _ SNone]) (simp add: Some True)
      next
        case notNone: False
        with False obtain n where n: "py_int v = Inr n" by (cases "py_int v") auto
        show ?thesis
        proof (cases "n = 0")
          case True
          show ?thesis by (rule exI[of _ SNone]) (simp add: Some notNone n True)
        next
          case nz: False
          show ?thesis by (rule exI[of _ "SInt n"]) (simp add: Some notNone n nz)
        qed
      qed
      then obtain w where
        step: "coerce_ints_none py_int (i # rest) options =
                 coerce_ints_none py_int rest (options(i \<mapsto> w))"
        by blast
      define options1 where "options1 = options(i \<mapsto> w)"
      have same: "\<And>k. k \<in> set rest \<Longrightarrow> options1 k = options k"
        using ni by (auto simp: options1_def)
      have here: "\<forall>u. options i = Some u \<and> u \<noteq> SStr ''None'' \<longrightarrow> (\<exists>n. py_int u = Inr n)"
        using Some False by (cases "py_int v") auto
      show ?thesis
      proof (cases "coerce_ints_none py_int rest options1")
        case (Inl err)
        with Cons.IH[OF d, of options1] obtain k u
          where "k \<in> set rest" "options1 k = Some u" "u \<noteq> SStr ''None''" "py_int u = Inl err"
          by auto
        then have "k \<in> set (i # rest) \<and> options k = Some u \<and> u \<noteq> SStr ''None'' \<and>
                     py_int u = Inl err"
          using same by simp
        then show ?thesis unfolding step options1_def[symmetric] Inl by auto
      next
        case (Inr options2)
        with Cons.IH[OF d, of options1]
        have "\<forall>k \<in> set rest. \<forall>u. options1 k = Some u \<and> u \<noteq> SStr ''None'' \<longrightarrow>
                (\<exists>n. py_int u = Inr n)"
          by simp
        then have "\<forall>k \<in> set rest. \<forall>u. options k = Some u \<and> u \<noteq> SStr ''None'' \<longrightarrow>
                (\<exists>n. py_int u = Inr n)"
          using same by simp
        with here show ?thesis unfolding step options1_def[symmetric] Inr by simp
      qed
    qed
  qed
qed

lemma distinct_configs:
  "distinct configs_int" "distinct configs_int_none"
  by (simp_all add: configs_int_def configs_int_none_def)

lemma not_in_configs:
  "k \<in> set configs_int_none \<Longrightarrow> k \<notin> set configs_int"
  "k \<in> set configs_int_none \<Longrightarrow> k \<notin> set configs_bool"
  "k \<in> set configs_int_none \<Longrightarrow> k \<noteq> ''socket_timeout''"
  "k \<in> set configs_int_none \<Longrightarrow> k \<noteq> ''prefix''"
  "k \<in> set configs_int_none \<Longrightarrow> k \<noteq> ''id_generator''"
  "k \<in> set configs_int \<Longrightarrow> k \<notin> set configs_bool"
  "''socket_timeout'' \<notin> set configs_bool"
  "''socket_timeout'' \<notin> set configs_int"
  "''socket_timeout'' \<notin> set configs_int_none"
  by (auto simp: configs_int_def configs_int_none_def configs_bool_def)

text \<open>The stages of \<^verbatim>\<open>_parse_settings\<close>, when it returns.\<close>

lemma parse_settings_stages:
  assumes "parse_settings py_int py_float asbool settings = Inr options"
  obtains o1 o2 o3 where
    "coerce_ints py_int configs_int
       (coerce_bools asbool configs_bool (collect_options settings Map.empty)) = Inr o1"
    "coerce_ints_none py_int configs_int_none o1 = Inr o2"
    "coerce_float py_float o2 = Inr o3"
    "options = (case o3 ''prefix'' of None \<Rightarrow> o3
                | Some prefix \<Rightarrow> o3(''prefix'' := None, ''id_generator'' \<mapsto> SPrefixedId prefix))"
  using assms
  unfolding parse_settings_def Let_def
  by (auto split: if_splits sum.splits option.splits)

text \<open>
  Claim C10: whenever \<^verbatim>\<open>_parse_settings\<close> returns an options mapping, the value under
  \<^verbatim>\<open>timeout\<close> (and under \<^verbatim>\<open>timeout_trigger\<close>) is never the integer 0: the key is absent
  (when no setting gave it), or \<^verbatim>\<open>None\<close>, or a nonzero integer. The string \<^verbatim>\<open>"None"\<close> and
  every value that \<^verbatim>\<open>int\<close> coerces to 0 are stored as \<^verbatim>\<open>None\<close>; a value that coerces to a
  nonzero \<open>n\<close> is stored as \<open>n\<close>.
\<close>

theorem timeout_settings_never_zero:
  assumes "parse_settings py_int py_float asbool settings = Inr options"
    and "k = ''timeout'' \<or> k = ''timeout_trigger''"
  shows "options k \<noteq> Some (SInt 0) \<and>
         (options k = None \<or> options k = Some SNone \<or> (\<exists>n. n \<noteq> 0 \<and> options k = Some (SInt n))) \<and>
         (collect_options settings Map.empty k = None \<longrightarrow> options k = None) \<and>
         (\<forall>v. collect_options settings Map.empty k = Some v \<longrightarrow>
            (v = SStr ''None'' \<or> py_int v = Inr 0 \<longrightarrow> options k = Some SNone) \<and>
            (\<forall>n. v \<noteq> SStr ''None'' \<and> py_int v = Inr n \<and> n \<noteq> 0 \<longrightarrow> options k = Some (SInt n)))"
proof -
  have k: "k \<in> set configs_int_none" using assms(2) by (auto simp: configs_int_none_def)
  from parse_settings_stages[OF assms(1)] obtain o1 o2 o3 where
    s1: "coerce_ints py_int configs_int
       (coerce_bools asbool configs_bool (collect_options settings Map.empty)) = Inr o1"
    and s2: "coerce_ints_none py_int configs_int_none o1 = Inr o2"
    and s3: "coerce_float py_float o2 = Inr o3"
    and s4: "options = (case o3 ''prefix'' of None \<Rightarrow> o3
                | Some prefix \<Rightarrow> o3(''prefix'' := None, ''id_generator'' \<mapsto> SPrefixedId prefix))"
    by blast
  have a: "o1 k = collect_options settings Map.empty k"
    using coerce_ints_other[OF s1 not_in_configs(1)[OF k]]
      coerce_bools_other[OF not_in_configs(2)[OF k]] by simp
  have b: "o3 k = o2 k"
    using coerce_float_other[OF s3 not_in_configs(3)[OF k]] .
  have c: "options k = o3 k"
    using s4 not_in_configs(4,5)[OF k] by (auto split: option.splits)
  have key: "options k =
           (case collect_options settings Map.empty k of
              None \<Rightarrow> None
            | Some v \<Rightarrow>
                if v = SStr ''None'' then Some SNone
                else (case py_int v of
                        Inl err \<Rightarrow> None
                      | Inr n \<Rightarrow> if n = 0 then Some SNone else Some (SInt n)))"
    using coerce_ints_none_key[OF s2 k distinct_configs(2)] a b c by simp
  have ok: "\<forall>v. collect_options settings Map.empty k = Some v \<and> v \<noteq> SStr ''None'' \<longrightarrow>
               (\<exists>n. py_int v = Inr n)"
    using coerce_ints_none_result[OF distinct_configs(2), where py_int=py_int and options=o1] s2 k a by auto
  show ?thesis
    using key ok
    by (cases "collect_options settings Map.empty k") (auto split: sum.splits if_splits)
qed

theorem timeout_settings_never_zero_witness:
  "\<exists>options.
     parse_settings int_of_setting float_of_setting asbool_of_setting
       [(''redis.sessions.secret'', SStr ''s3cret''),
        (''redis.sessions.timeout'', SStr ''0''),
        (''redis.sessions.timeout_trigger'', SStr ''None''),
        (''redis.sessions.port'', SStr ''6379''),
        (''pyramid.debug'', SStr ''true'')] = Inr options \<and>
     options ''timeout'' = Some SNone \<and> options ''timeout_trigger'' = Some SNone \<and>
     options ''timeout'' \<noteq> Some (SInt 0) \<and> options ''timeout_trigger'' \<noteq> Some (SInt 0) \<and>
     options ''port'' = Some (SInt 6379)"
proof -
  obtain options where p:
    "parse_settings int_of_setting float_of_setting asbool_of_setting
       [(''redis.sessions.secret'', SStr ''s3cret''),
        (''redis.sessions.timeout'', SStr ''0''),
        (''redis.sessions.timeout_trigger'', SStr ''None''),
        (''redis.sessions.port'', SStr ''6379''),
        (''pyramid.debug'', SStr ''true'')] = Inr options"
    and port: "options ''port'' = Some (SInt 6379)"
    by (simp add: parse_settings_def startswith_def last_component_def options_get_def
          configs_bool_def configs_int_def configs_int_none_def digit_value_def
          coerce_float_def)
  have c: "collect_options
       [(''redis.sessions.secret'', SStr ''s3cret''),
        (''redis.sessions.timeout'', SStr ''0''),
        (''redis.sessions.timeout_trigger'', SStr ''None''),
        (''redis.sessions.port'', SStr ''6379''),
        (''pyramid.debug'', SStr ''true'')] Map.empty ''timeout'' = Some (SStr ''0'')"
    and d: "collect_options
       [(''redis.sessions.secret'', SStr ''s3cret''),
        (''redis.sessions.timeout'', SStr ''0''),
        (''redis.sessions.timeout_trigger'', SStr ''None''),
        (''redis.sessions.port'', SStr ''6379''),
        (''pyramid.debug'', SStr ''true'')] Map.empty ''timeout_trigger''
          = Some (SStr ''None'')"
    by (simp_all add: startswith_def last_component_def)
  have z: "int_of_setting (SStr ''0'') = Inr 0"
    by (simp add: digit_value_def)
  have "options ''timeout'' = Some SNone \<and> options ''timeout'' \<noteq> Some (SInt 0)"
    using timeout_settings_never_zero [OF p, of "''timeout''"] c z by simp
  moreover
  have "options ''timeout_trigger'' = Some SNone \<and>
        options ''timeout_trigger'' \<noteq> Some (SInt 0)"
    using timeout_settings_never_zero [OF p, of "''timeout_trigger''"] d by simp
  ultimately show ?thesis using p port by blast
qed

text \<open>
  What each coercion loop leaves under one of its keys: the coerced value of what was
  there, and nothing where there was nothing.
\<close>

lemma coerce_bools_key:
  "distinct keys \<Longrightarrow> k \<in> set keys \<Longrightarrow>
     coerce_bools asbool keys options k = map_option (\<lambda>v. SBool (asbool v)) (options k)"
proof (induction keys arbitrary: options)
  case Nil
  then show ?case by simp
next
  case (Cons i rest)
  show ?case
  proof (cases "k = i")
    case True
    then have "k \<notin> set rest" using Cons.prems(1) by simp
    then show ?thesis
      using True by (auto simp: coerce_bools_other split: option.splits)
  next
    case False
    then have "k \<in> set rest" "distinct rest" using Cons.prems by simp_all
    then show ?thesis
      using False Cons.IH by (auto split: option.splits)
  qed
qed

lemma coerce_ints_key:
  assumes "coerce_ints py_int keys options = Inr options'" and "k \<in> set keys"
    and "distinct keys"
  shows "options' k =
           (case options k of
              None \<Rightarrow> None
            | Some v \<Rightarrow>
                (case py_int v of Inl err \<Rightarrow> None | Inr n \<Rightarrow> Some (SInt n)))"
  using assms
proof (induction keys arbitrary: options)
  case Nil
  then show ?case by simp
next
  case (Cons i rest)
  show ?case
  proof (cases "k = i")
    case True
    then have "k \<notin> set rest" using Cons.prems(3) by simp
    then show ?thesis
      using Cons.prems(1) True
      by (auto split: option.splits sum.splits dest: coerce_ints_other)
  next
    case False
    then have "k \<in> set rest" using Cons.prems(2) by simp
    then show ?thesis
      using Cons.prems(1,3) False Cons.IH
      by (auto split: option.splits sum.splits)
  qed
qed

lemma coerce_float_key:
  assumes "coerce_float py_float options = Inr options'"
  shows "options' ''socket_timeout'' =
           (case options ''socket_timeout'' of
              None \<Rightarrow> None
            | Some v \<Rightarrow>
                (case py_float v of Inl err \<Rightarrow> None | Inr r \<Rightarrow> Some (SFloat r)))"
  using assms by (auto simp: coerce_float_def split: option.splits sum.splits)

text \<open>
  The coercions and the prefix step of a settings parser, for any three tuples of keys
  for the booleans, the integers and the integers that may be \<^verbatim>\<open>None\<close>: either every
  present numeric setting coerces, and then the result is a configuration error when
  both a prefix and an id generator are configured and otherwise the options with every
  listed key coerced, \<^verbatim>\<open>prefix\<close> removed and \<^verbatim>\<open>id_generator\<close> built from the prefix; or the
  result is the error of a coercion that fails.
\<close>

lemma coercion_stages:
  fixes py_int :: "setting \<Rightarrow> py_error + int" and py_float :: "setting \<Rightarrow> py_error + real"
    and asbool :: "setting \<Rightarrow> bool" and bs ks ns :: "string list" and opts :: options
  defines "staged \<equiv>
     (case coerce_ints py_int ks (coerce_bools asbool bs opts) of
        Inl err \<Rightarrow> Inl err
      | Inr o1 \<Rightarrow>
          (case coerce_ints_none py_int ns o1 of
             Inl err \<Rightarrow> Inl err
           | Inr o2 \<Rightarrow>
               (case coerce_float py_float o2 of
                  Inl err \<Rightarrow> Inl err
                | Inr o3 \<Rightarrow>
                    if ''prefix'' \<in> dom o3 \<and> ''id_generator'' \<in> dom o3
                    then Inl ConfigurationError
                    else
                      (case o3 ''prefix'' of
                         None \<Rightarrow> Inr o3
                       | Some prefix \<Rightarrow>
                           Inr (o3(''prefix'' := None,
                                  ''id_generator'' \<mapsto> SPrefixedId prefix))))))"
  defines "succeed \<equiv>
     (\<forall>k \<in> set ks. \<forall>v. opts k = Some v \<longrightarrow> (\<exists>n. py_int v = Inr n)) \<and>
     (\<forall>k \<in> set ns. \<forall>v. opts k = Some v \<and> v \<noteq> SStr ''None'' \<longrightarrow> (\<exists>n. py_int v = Inr n)) \<and>
     (\<forall>v. opts ''socket_timeout'' = Some v \<longrightarrow> (\<exists>r. py_float v = Inr r))"
  defines "coerced \<equiv> \<lambda>k.
     if k = ''prefix'' then None
     else if k = ''id_generator'' then
       (case opts ''prefix'' of
          Some prefix \<Rightarrow> Some (SPrefixedId prefix)
        | None \<Rightarrow> opts ''id_generator'')
     else if k \<in> set bs then map_option (\<lambda>v. SBool (asbool v)) (opts k)
     else if k \<in> set ks then
       (case opts k of
          None \<Rightarrow> None
        | Some v \<Rightarrow> (case py_int v of Inl err \<Rightarrow> None | Inr n \<Rightarrow> Some (SInt n)))
     else if k \<in> set ns then
       (case opts k of
          None \<Rightarrow> None
        | Some v \<Rightarrow>
            if v = SStr ''None'' then Some SNone
            else (case py_int v of
                    Inl err \<Rightarrow> None
                  | Inr n \<Rightarrow> if n = 0 then Some SNone else Some (SInt n)))
     else if k = ''socket_timeout'' then
       (case opts k of
          None \<Rightarrow> None
        | Some v \<Rightarrow> (case py_float v of Inl err \<Rightarrow> None | Inr r \<Rightarrow> Some (SFloat r)))
     else opts k"
  assumes d: "distinct bs" "distinct ks" "distinct ns"
    and disj: "set bs \<inter> set ks = {}" "set bs \<inter> set ns = {}" "set ks \<inter> set ns = {}"
    and reserved: "''socket_timeout'' \<notin> set bs \<union> set ks \<union> set ns"
      "''prefix'' \<notin> set bs \<union> set ks \<union> set ns"
      "''id_generator'' \<notin> set bs \<union> set ks \<union> set ns"
  shows "(succeed \<longrightarrow>
            (if ''prefix'' \<in> dom opts \<and> ''id_generator'' \<in> dom opts
             then staged = Inl ConfigurationError else staged = Inr coerced)) \<and>
         (\<not> succeed \<longrightarrow>
            (\<exists>err k v. staged = Inl err \<and> opts k = Some v \<and>
               (k \<in> set ks \<union> set ns \<and> py_int v = Inl err \<or>
                k = ''socket_timeout'' \<and> py_float v = Inl err)))"
proof -
  define ob where "ob = coerce_bools asbool bs opts"
  have ob_bs: "\<And>k. k \<in> set bs \<Longrightarrow> ob k = map_option (\<lambda>v. SBool (asbool v)) (opts k)"
    unfolding ob_def using coerce_bools_key[OF d(1)] by simp
  have ob_other: "\<And>k. k \<notin> set bs \<Longrightarrow> ob k = opts k"
    unfolding ob_def by (rule coerce_bools_other)
  have ob_dom: "dom ob = dom opts"
    unfolding ob_def by (rule coerce_bools_dom)
  have ks_not_bs: "\<And>k. k \<in> set ks \<Longrightarrow> k \<notin> set bs" using disj(1) by blast
  have ns_not_bs: "\<And>k. k \<in> set ns \<Longrightarrow> k \<notin> set bs" using disj(2) by blast
  have ns_not_ks: "\<And>k. k \<in> set ns \<Longrightarrow> k \<notin> set ks" using disj(3) by blast
  have st: "''socket_timeout'' \<notin> set bs" "''socket_timeout'' \<notin> set ks"
    "''socket_timeout'' \<notin> set ns" using reserved(1) by simp_all
  show ?thesis
  proof (cases "coerce_ints py_int ks ob")
    case (Inl err)
    then obtain k v where "k \<in> set ks" "ob k = Some v" "py_int v = Inl err"
      using coerce_ints_result[OF d(2), where py_int=py_int and options=ob] by auto
    then have kv: "k \<in> set ks" "opts k = Some v" "py_int v = Inl err"
      using ob_other ks_not_bs by auto
    then have "\<not> succeed" unfolding succeed_def by force
    moreover have "staged = Inl err"
      unfolding staged_def ob_def[symmetric] using Inl by simp
    ultimately show ?thesis using kv by auto
  next
    case o1: (Inr o1)
    have ints_ok: "\<forall>k \<in> set ks. \<forall>v. opts k = Some v \<longrightarrow> (\<exists>n. py_int v = Inr n)"
      using coerce_ints_result[OF d(2), where py_int=py_int and options=ob]
        o1 ob_other ks_not_bs by auto
    have o1_ks: "\<And>k. k \<in> set ks \<Longrightarrow> o1 k =
           (case opts k of None \<Rightarrow> None
            | Some v \<Rightarrow> (case py_int v of Inl err \<Rightarrow> None | Inr n \<Rightarrow> Some (SInt n)))"
      using coerce_ints_key[OF o1 _ d(2)] ob_other ks_not_bs by simp
    have o1_other: "\<And>k. k \<notin> set ks \<Longrightarrow> o1 k = ob k"
      using coerce_ints_other[OF o1] by simp
    have o1_dom: "dom o1 = dom opts" using coerce_ints_dom[OF o1] ob_dom by simp
    show ?thesis
    proof (cases "coerce_ints_none py_int ns o1")
      case (Inl err)
      then obtain k v where "k \<in> set ns" "o1 k = Some v"
          "v \<noteq> SStr ''None''" "py_int v = Inl err"
        using coerce_ints_none_result[OF d(3), where py_int=py_int and options=o1]
        by auto
      then have kv: "k \<in> set ns" "opts k = Some v" "v \<noteq> SStr ''None''"
          "py_int v = Inl err"
        using o1_other ob_other ns_not_ks ns_not_bs by auto
      then have "\<not> succeed" unfolding succeed_def by force
      moreover have "staged = Inl err"
        unfolding staged_def ob_def[symmetric] using o1 Inl by simp
      ultimately show ?thesis using kv by auto
    next
      case o2: (Inr o2)
      have none_ok: "\<forall>k \<in> set ns. \<forall>v. opts k = Some v \<and> v \<noteq> SStr ''None'' \<longrightarrow>
                (\<exists>n. py_int v = Inr n)"
        using coerce_ints_none_result[OF d(3), where py_int=py_int and options=o1]
          o2 o1_other ob_other ns_not_ks ns_not_bs by auto
      have o2_ns: "\<And>k. k \<in> set ns \<Longrightarrow> o2 k =
           (case opts k of None \<Rightarrow> None
            | Some v \<Rightarrow>
                if v = SStr ''None'' then Some SNone
                else (case py_int v of
                        Inl err \<Rightarrow> None
                      | Inr n \<Rightarrow> if n = 0 then Some SNone else Some (SInt n)))"
        using coerce_ints_none_key[OF o2 _ d(3)] o1_other ob_other ns_not_ks ns_not_bs
        by simp
      have o2_other: "\<And>k. k \<notin> set ns \<Longrightarrow> o2 k = o1 k"
        using coerce_ints_none_other[OF o2] by simp
      have o2_st: "o2 ''socket_timeout'' = opts ''socket_timeout''"
        using o2_other o1_other ob_other st by simp
      have o2_dom: "dom o2 = dom opts" using coerce_ints_none_dom[OF o2] o1_dom by simp
      show ?thesis
      proof (cases "coerce_float py_float o2")
        case (Inl err)
        then obtain v where "o2 ''socket_timeout'' = Some v" "py_float v = Inl err"
          by (auto simp: coerce_float_def split: option.splits sum.splits)
        then have kv: "opts ''socket_timeout'' = Some v" "py_float v = Inl err"
          using o2_st by auto
        then have "\<not> succeed" unfolding succeed_def by force
        moreover have "staged = Inl err"
          unfolding staged_def ob_def[symmetric] using o1 o2 Inl by simp
        ultimately show ?thesis using kv by auto
      next
        case o3: (Inr o3)
        have float_ok: "\<forall>v. opts ''socket_timeout'' = Some v \<longrightarrow> (\<exists>r. py_float v = Inr r)"
          using o3 o2_st
          by (auto simp: coerce_float_def split: option.splits sum.splits)
        have ok: succeed
          unfolding succeed_def using ints_ok none_ok float_ok by blast
        have o3_dom: "dom o3 = dom opts" using coerce_float_dom[OF o3] o2_dom by simp
        have o3_st: "o3 ''socket_timeout'' =
           (case opts ''socket_timeout'' of None \<Rightarrow> None
            | Some v \<Rightarrow> (case py_float v of Inl err \<Rightarrow> None | Inr r \<Rightarrow> Some (SFloat r)))"
          using coerce_float_key[OF o3] o2_st by simp
        have o3_other: "\<And>k. k \<noteq> ''socket_timeout'' \<Longrightarrow> o3 k = o2 k"
          using coerce_float_other[OF o3] by simp
        have o3_k: "o3 k =
          (if k \<in> set bs then map_option (\<lambda>v. SBool (asbool v)) (opts k)
           else if k \<in> set ks then
             (case opts k of None \<Rightarrow> None
              | Some v \<Rightarrow> (case py_int v of Inl err \<Rightarrow> None | Inr n \<Rightarrow> Some (SInt n)))
           else if k \<in> set ns then
             (case opts k of None \<Rightarrow> None
              | Some v \<Rightarrow>
                  if v = SStr ''None'' then Some SNone
                  else (case py_int v of
                          Inl err \<Rightarrow> None
                        | Inr n \<Rightarrow> if n = 0 then Some SNone else Some (SInt n)))
           else if k = ''socket_timeout'' then
             (case opts k of None \<Rightarrow> None
              | Some v \<Rightarrow> (case py_float v of Inl err \<Rightarrow> None | Inr r \<Rightarrow> Some (SFloat r)))
           else opts k)" for k
        proof (cases "k = ''socket_timeout''")
          case True
          then show ?thesis using o3_st st by simp
        next
          case nst: False
          show ?thesis
          proof (cases "k \<in> set ns")
            case True
            then show ?thesis
              using nst o3_other o2_ns ns_not_bs ns_not_ks by simp
          next
            case nns: False
            show ?thesis
            proof (cases "k \<in> set ks")
              case True
              then show ?thesis
                using nst nns o3_other o2_other o1_ks ks_not_bs by simp
            next
              case nks: False
              show ?thesis
                using nst nns nks o3_other o2_other o1_other ob_bs ob_other
                by (cases "k \<in> set bs") simp_all
            qed
          qed
        qed
        have pre: "o3 ''prefix'' = opts ''prefix''"
          and idg: "o3 ''id_generator'' = opts ''id_generator''"
          using o3_k[of "''prefix''"] o3_k[of "''id_generator''"] reserved by simp_all
        have S: "staged =
          (if ''prefix'' \<in> dom opts \<and> ''id_generator'' \<in> dom opts
           then Inl ConfigurationError
           else (case o3 ''prefix'' of
                   None \<Rightarrow> Inr o3
                 | Some prefix \<Rightarrow>
                     Inr (o3(''prefix'' := None, ''id_generator'' \<mapsto> SPrefixedId prefix))))"
          unfolding staged_def ob_def[symmetric] using o1 o2 o3 o3_dom by simp
        have final: "(case o3 ''prefix'' of
                        None \<Rightarrow> o3
                      | Some prefix \<Rightarrow>
                          o3(''prefix'' := None, ''id_generator'' \<mapsto> SPrefixedId prefix))
                     = coerced"
        proof (rule ext)
          fix k
          show "(case o3 ''prefix'' of
                        None \<Rightarrow> o3
                      | Some prefix \<Rightarrow>
                          o3(''prefix'' := None, ''id_generator'' \<mapsto> SPrefixedId prefix)) k
                  = coerced k"
          proof (cases "opts ''prefix''")
            case None
            then show ?thesis
              using pre idg o3_k[of k] unfolding coerced_def by auto
          next
            case (Some p)
            then show ?thesis
              using pre idg o3_k[of k] unfolding coerced_def by auto
          qed
        qed
        have "if ''prefix'' \<in> dom opts \<and> ''id_generator'' \<in> dom opts
              then staged = Inl ConfigurationError else staged = Inr coerced"
          using S final by (auto split: option.splits)
        with ok show ?thesis by simp
      qed
    qed
  qed
qed

lemma parse_settings_unfold:
  assumes "truth (options_get (collect_options settings Map.empty) ''secret'') \<noteq>
           truth (options_get (collect_options settings Map.empty) ''cookie_signer'')"
  shows "parse_settings py_int py_float asbool settings =
     (case coerce_ints py_int configs_int
             (coerce_bools asbool configs_bool (collect_options settings Map.empty)) of
        Inl err \<Rightarrow> Inl err
      | Inr o1 \<Rightarrow>
          (case coerce_ints_none py_int configs_int_none o1 of
             Inl err \<Rightarrow> Inl err
           | Inr o2 \<Rightarrow>
               (case coerce_float py_float o2 of
                  Inl err \<Rightarrow> Inl err
                | Inr o3 \<Rightarrow>
                    if ''prefix'' \<in> dom o3 \<and> ''id_generator'' \<in> dom o3
                    then Inl ConfigurationError
                    else
                      (case o3 ''prefix'' of
                         None \<Rightarrow> Inr o3
                       | Some prefix \<Rightarrow>
                           Inr (o3(''prefix'' := None,
                                  ''id_generator'' \<mapsto> SPrefixedId prefix))))))"
  using assms unfolding parse_settings_def Let_def by auto

lemma parse_settings_legacy_unfold:
  assumes "''secret'' \<in> dom (collect_options settings Map.empty)"
  shows "parse_settings_legacy py_int py_float asbool settings =
     (case coerce_ints py_int legacy_ints
             (coerce_bools asbool legacy_bools (collect_options settings Map.empty)) of
        Inl err \<Rightarrow> Inl err
      | Inr o1 \<Rightarrow>
          (case coerce_ints_none py_int [] o1 of
             Inl err \<Rightarrow> Inl err
           | Inr o2 \<Rightarrow>
               (case coerce_float py_float o2 of
                  Inl err \<Rightarrow> Inl err
                | Inr o3 \<Rightarrow>
                    if ''prefix'' \<in> dom o3 \<and> ''id_generator'' \<in> dom o3
                    then Inl ConfigurationError
                    else
                      (case o3 ''prefix'' of
                         None \<Rightarrow> Inr o3
                       | Some prefix \<Rightarrow>
                           Inr (o3(''prefix'' := None,
                                  ''id_generator'' \<mapsto> SPrefixedId prefix))))))"
  using assms unfolding parse_settings_legacy_def Let_def
  by (auto split: sum.splits)

lemma configs_lists:
  "distinct configs_bool" "distinct configs_int" "distinct configs_int_none"
  "set configs_bool \<inter> set configs_int = {}"
  "set configs_bool \<inter> set configs_int_none = {}"
  "set configs_int \<inter> set configs_int_none = {}"
  "''socket_timeout'' \<notin> set configs_bool \<union> set configs_int \<union> set configs_int_none"
  "''prefix'' \<notin> set configs_bool \<union> set configs_int \<union> set configs_int_none"
  "''id_generator'' \<notin> set configs_bool \<union> set configs_int \<union> set configs_int_none"
  by (simp_all add: configs_bool_def configs_int_def configs_int_none_def)

lemma legacy_lists:
  "distinct legacy_bools" "distinct legacy_ints" "distinct ([] :: string list)"
  "set legacy_bools \<inter> set legacy_ints = {}"
  "set legacy_bools \<inter> set [] = {}"
  "set legacy_ints \<inter> set [] = {}"
  "''socket_timeout'' \<notin> set legacy_bools \<union> set legacy_ints \<union> set []"
  "''prefix'' \<notin> set legacy_bools \<union> set legacy_ints \<union> set []"
  "''id_generator'' \<notin> set legacy_bools \<union> set legacy_ints \<union> set []"
  by (simp_all add: legacy_bools_def legacy_ints_def)

text \<open>
  Claim C8, as stated, fails. In \<^verbatim>\<open>pyramid_session_redis\<close>: with the secret supplied and
  no prefix, a port that is not a number makes \<^verbatim>\<open>_parse_settings\<close> raise \<^verbatim>\<open>ValueError\<close>
  (from \<^verbatim>\<open>int\<close>), so it neither returns the options nor raises a configuration error;
  and with both a prefix and an id generator configured, the same port makes it raise
  \<^verbatim>\<open>ValueError\<close> before the conflict check is reached. In the legacy
  \<^verbatim>\<open>pyramid_redis_sessions\<close>, which the claim also cites: with both the secret and a
  cookie signer supplied \<^verbatim>\<open>_parse_settings\<close> returns the options (the cookie signer is
  one more option to it); with the cookie signer alone it raises a configuration
  error; and a timeout \<^verbatim>\<open>"None"\<close> makes it raise \<^verbatim>\<open>ValueError\<close>.
\<close>

theorem parse_settings_other_outcomes:
  "parse_settings int_of_setting float_of_setting asbool_of_setting
     [(''redis.sessions.secret'', SStr ''s3cret''),
      (''redis.sessions.port'', SStr ''abc'')] = Inl ValueError \<and>
   parse_settings int_of_setting float_of_setting asbool_of_setting
     [(''redis.sessions.secret'', SStr ''s3cret''),
      (''redis.sessions.port'', SStr ''abc''),
      (''redis.sessions.prefix'', SStr ''session:''),
      (''redis.sessions.id_generator'', SObject ''my.generator'')] = Inl ValueError \<and>
   parse_settings_legacy int_of_setting float_of_setting asbool_of_setting
     [(''redis.sessions.secret'', SStr ''s3cret''),
      (''redis.sessions.cookie_signer'', SObject ''my.signer'')]
     = Inr [''secret'' \<mapsto> SStr ''s3cret'', ''cookie_signer'' \<mapsto> SObject ''my.signer''] \<and>
   parse_settings_legacy int_of_setting float_of_setting asbool_of_setting
     [(''redis.sessions.cookie_signer'', SObject ''my.signer'')]
     = Inl ConfigurationError \<and>
   parse_settings_legacy int_of_setting float_of_setting asbool_of_setting
     [(''redis.sessions.secret'', SStr ''s3cret''),
      (''redis.sessions.timeout'', SStr ''None'')] = Inl ValueError"
  by (simp add: parse_settings_def parse_settings_legacy_def startswith_def
        last_component_def options_get_def configs_bool_def configs_int_def
        configs_int_none_def legacy_bools_def legacy_ints_def coerce_float_def
        digit_value_def)

text \<open>
  Claim C8, amended. \<^verbatim>\<open>_parse_settings\<close> of \<^verbatim>\<open>pyramid_session_redis\<close> raises a
  configuration error when the signing credentials are misconfigured (neither or both of
  the secret and the cookie signer supplied, \<open>supplied\<close> meaning a true value).
  Otherwise, when every setting of \<^verbatim>\<open>configs_int\<close>, \<^verbatim>\<open>configs_int_none\<close> (the string
  \<^verbatim>\<open>"None"\<close> apart) and \<^verbatim>\<open>socket_timeout\<close> that is present coerces to a number, it raises
  a configuration error precisely when both an id generator and a key prefix are
  configured, and otherwise returns exactly the coerced options: the collected options
  with the settings of \<^verbatim>\<open>configs_bool\<close> made booleans, those of \<^verbatim>\<open>configs_int\<close> integers,
  those of \<^verbatim>\<open>configs_int_none\<close> integers or \<^verbatim>\<open>None\<close> (for \<^verbatim>\<open>"None"\<close> and for 0),
  \<^verbatim>\<open>socket_timeout\<close> a float, \<^verbatim>\<open>prefix\<close> removed and, when there was a prefix,
  \<^verbatim>\<open>id_generator\<close> the prefixed generator; every other option is unchanged. When one
  of these settings does not coerce, it raises the error of that coercion
  (\<^verbatim>\<open>ValueError\<close> or \<^verbatim>\<open>TypeError\<close>), not a configuration error of its own.

  \<^verbatim>\<open>_parse_settings\<close> of the legacy \<^verbatim>\<open>pyramid_redis_sessions\<close> raises a configuration
  error when the key \<^verbatim>\<open>secret\<close> is absent, whatever else is supplied. Otherwise, when
  every present setting among \<^verbatim>\<open>timeout\<close>, \<^verbatim>\<open>port\<close>, \<^verbatim>\<open>db\<close>, \<^verbatim>\<open>cookie_max_age\<close> and
  \<^verbatim>\<open>socket_timeout\<close> coerces to a number, it raises a configuration error precisely when
  both an id generator and a key prefix are configured, and otherwise returns exactly
  the coerced options (three booleans, four integers, the float, the prefix step); when
  one does not coerce, it raises the error of that coercion.
\<close>

theorem parse_settings_raises:
  fixes py_int py_float asbool settings
  defines "opts \<equiv> collect_options settings Map.empty"
  defines "R \<equiv> parse_settings py_int py_float asbool settings"
  defines "L \<equiv> parse_settings_legacy py_int py_float asbool settings"
  defines "credentials_bad \<equiv>
             truth (options_get opts ''secret'') = truth (options_get opts ''cookie_signer'')"
  defines "coercions_succeed \<equiv>
             (\<forall>k \<in> set configs_int. \<forall>v. opts k = Some v \<longrightarrow> (\<exists>n. py_int v = Inr n)) \<and>
             (\<forall>k \<in> set configs_int_none. \<forall>v. opts k = Some v \<and> v \<noteq> SStr ''None'' \<longrightarrow>
                (\<exists>n. py_int v = Inr n)) \<and>
             (\<forall>v. opts ''socket_timeout'' = Some v \<longrightarrow> (\<exists>r. py_float v = Inr r))"
  defines "coerced \<equiv> \<lambda>k.
     if k = ''prefix'' then None
     else if k = ''id_generator'' then
       (case opts ''prefix'' of
          Some prefix \<Rightarrow> Some (SPrefixedId prefix)
        | None \<Rightarrow> opts ''id_generator'')
     else if k \<in> set configs_bool then map_option (\<lambda>v. SBool (asbool v)) (opts k)
     else if k \<in> set configs_int then
       (case opts k of
          None \<Rightarrow> None
        | Some v \<Rightarrow> (case py_int v of Inl err \<Rightarrow> None | Inr n \<Rightarrow> Some (SInt n)))
     else if k \<in> set configs_int_none then
       (case opts k of
          None \<Rightarrow> None
        | Some v \<Rightarrow>
            if v = SStr ''None'' then Some SNone
            else (case py_int v of
                    Inl err \<Rightarrow> None
                  | Inr n \<Rightarrow> if n = 0 then Some SNone else Some (SInt n)))
     else if k = ''socket_timeout'' then
       (case opts k of
          None \<Rightarrow> None
        | Some v \<Rightarrow> (case py_float v of Inl err \<Rightarrow> None | Inr r \<Rightarrow> Some (SFloat r)))
     else opts k"
  defines "legacy_coercions_succeed \<equiv>
             (\<forall>k \<in> set legacy_ints. \<forall>v. opts k = Some v \<longrightarrow> (\<exists>n. py_int v = Inr n)) \<and>
             (\<forall>v. opts ''socket_timeout'' = Some v \<longrightarrow> (\<exists>r. py_float v = Inr r))"
  defines "legacy_coerced \<equiv> \<lambda>k.
     if k = ''prefix'' then None
     else if k = ''id_generator'' then
       (case opts ''prefix'' of
          Some prefix \<Rightarrow> Some (SPrefixedId prefix)
        | None \<Rightarrow> opts ''id_generator'')
     else if k \<in> set legacy_bools then map_option (\<lambda>v. SBool (asbool v)) (opts k)
     else if k \<in> set legacy_ints then
       (case opts k of
          None \<Rightarrow> None
        | Some v \<Rightarrow> (case py_int v of Inl err \<Rightarrow> None | Inr n \<Rightarrow> Some (SInt n)))
     else if k = ''socket_timeout'' then
       (case opts k of
          None \<Rightarrow> None
        | Some v \<Rightarrow> (case py_float v of Inl err \<Rightarrow> None | Inr r \<Rightarrow> Some (SFloat r)))
     else opts k"
  shows "(credentials_bad \<longrightarrow> R = Inl ConfigurationError) \<and>
         (\<not> credentials_bad \<and> coercions_succeed \<longrightarrow>
            (if ''prefix'' \<in> dom opts \<and> ''id_generator'' \<in> dom opts
             then R = Inl ConfigurationError else R = Inr coerced)) \<and>
         (\<not> credentials_bad \<and> \<not> coercions_succeed \<longrightarrow>
            (\<exists>err k v. R = Inl err \<and> opts k = Some v \<and>
               (k \<in> set configs_int \<union> set configs_int_none \<and> py_int v = Inl err \<or>
                k = ''socket_timeout'' \<and> py_float v = Inl err))) \<and>
         (''secret'' \<notin> dom opts \<longrightarrow> L = Inl ConfigurationError) \<and>
         (''secret'' \<in> dom opts \<and> legacy_coercions_succeed \<longrightarrow>
            (if ''prefix'' \<in> dom opts \<and> ''id_generator'' \<in> dom opts
             then L = Inl ConfigurationError else L = Inr legacy_coerced)) \<and>
         (''secret'' \<in> dom opts \<and> \<not> legacy_coercions_succeed \<longrightarrow>
            (\<exists>err k v. L = Inl err \<and> opts k = Some v \<and>
               (k \<in> set legacy_ints \<and> py_int v = Inl err \<or>
                k = ''socket_timeout'' \<and> py_float v = Inl err)))"
proof -
  have bad: "credentials_bad \<longrightarrow> R = Inl ConfigurationError"
    unfolding R_def credentials_bad_def opts_def parse_settings_def Let_def by auto
  have new: "\<not> credentials_bad \<Longrightarrow>
         (coercions_succeed \<longrightarrow>
            (if ''prefix'' \<in> dom opts \<and> ''id_generator'' \<in> dom opts
             then R = Inl ConfigurationError else R = Inr coerced)) \<and>
         (\<not> coercions_succeed \<longrightarrow>
            (\<exists>err k v. R = Inl err \<and> opts k = Some v \<and>
               (k \<in> set configs_int \<union> set configs_int_none \<and> py_int v = Inl err \<or>
                k = ''socket_timeout'' \<and> py_float v = Inl err)))"
  proof -
    assume "\<not> credentials_bad"
    then have neq: "truth (options_get (collect_options settings Map.empty) ''secret'') \<noteq>
           truth (options_get (collect_options settings Map.empty) ''cookie_signer'')"
      unfolding credentials_bad_def opts_def by simp
    show ?thesis
      unfolding R_def parse_settings_unfold[OF neq] coercions_succeed_def coerced_def
        opts_def
      by (rule coercion_stages[OF configs_lists])
  qed
  have absent: "''secret'' \<notin> dom opts \<longrightarrow> L = Inl ConfigurationError"
    unfolding L_def opts_def parse_settings_legacy_def Let_def by simp
  have legacy: "''secret'' \<in> dom opts \<Longrightarrow>
         (legacy_coercions_succeed \<longrightarrow>
            (if ''prefix'' \<in> dom opts \<and> ''id_generator'' \<in> dom opts
             then L = Inl ConfigurationError else L = Inr legacy_coerced)) \<and>
         (\<not> legacy_coercions_succeed \<longrightarrow>
            (\<exists>err k v. L = Inl err \<and> opts k = Some v \<and>
               (k \<in> set legacy_ints \<and> py_int v = Inl err \<or>
                k = ''socket_timeout'' \<and> py_float v = Inl err)))"
  proof -
    assume "''secret'' \<in> dom opts"
    then have present: "''secret'' \<in> dom (collect_options settings Map.empty)"
      unfolding opts_def by simp
    have e: "(\<lambda>k. if k = ''prefix'' then None
     else if k = ''id_generator'' then
       (case opts ''prefix'' of
          Some prefix \<Rightarrow> Some (SPrefixedId prefix)
        | None \<Rightarrow> opts ''id_generator'')
     else if k \<in> set legacy_bools then map_option (\<lambda>v. SBool (asbool v)) (opts k)
     else if k \<in> set legacy_ints then
       (case opts k of
          None \<Rightarrow> None
        | Some v \<Rightarrow> (case py_int v of Inl err \<Rightarrow> None | Inr n \<Rightarrow> Some (SInt n)))
     else if k \<in> set [] then
       (case opts k of
          None \<Rightarrow> None
        | Some v \<Rightarrow>
            if v = SStr ''None'' then Some SNone
            else (case py_int v of
                    Inl err \<Rightarrow> None
                  | Inr n \<Rightarrow> if n = 0 then Some SNone else Some (SInt n)))
     else if k = ''socket_timeout'' then
       (case opts k of
          None \<Rightarrow> None
        | Some v \<Rightarrow> (case py_float v of Inl err \<Rightarrow> None | Inr r \<Rightarrow> Some (SFloat r)))
     else opts k) = legacy_coerced"
      unfolding legacy_coerced_def by (rule ext) simp
    have s: "((\<forall>k \<in> set legacy_ints. \<forall>v. opts k = Some v \<longrightarrow> (\<exists>n. py_int v = Inr n)) \<and>
     (\<forall>k \<in> set []. \<forall>v. opts k = Some v \<and> v \<noteq> SStr ''None'' \<longrightarrow> (\<exists>n. py_int v = Inr n)) \<and>
     (\<forall>v. opts ''socket_timeout'' = Some v \<longrightarrow> (\<exists>r. py_float v = Inr r)))
       = legacy_coercions_succeed"
      unfolding legacy_coercions_succeed_def by simp
    have u: "set legacy_ints \<union> set [] = set legacy_ints" by simp
    note g = coercion_stages[OF legacy_lists, where py_int=py_int and py_float=py_float
        and asbool=asbool and opts=opts,
        folded parse_settings_legacy_unfold[OF present, folded opts_def]]
    show ?thesis
      using g unfolding e s u L_def .
  qed
  show ?thesis
    using bad new absent legacy by blast
qed

text \<open>
  With the example coercions. In \<^verbatim>\<open>pyramid_session_redis\<close>: no credentials at all, and
  both credentials: a configuration error. A secret with a prefix and an id generator: a
  configuration error. A secret with a prefix, \<^verbatim>\<open>cookie_secure\<close> and a timeout: the
  options are returned, with the secret as it was, no prefix, the prefixed generator,
  the boolean and the integer. A secret and a port that is no number: the
  \<^verbatim>\<open>ValueError\<close> of \<^verbatim>\<open>int\<close>. In the legacy module: no secret: a configuration error;
  a secret with a prefix and an id generator: a configuration error; and the same
  options returned for the same settings.
\<close>

theorem parse_settings_raises_witness:
  "parse_settings int_of_setting float_of_setting asbool_of_setting
     [(''redis.sessions.timeout'', SStr ''1200'')] = Inl ConfigurationError \<and>
   parse_settings int_of_setting float_of_setting asbool_of_setting
     [(''redis.sessions.secret'', SStr ''s3cret''),
      (''redis.sessions.cookie_signer'', SObject ''my.signer'')] = Inl ConfigurationError \<and>
   parse_settings int_of_setting float_of_setting asbool_of_setting
     [(''redis.sessions.secret'', SStr ''s3cret''),
      (''redis.sessions.prefix'', SStr ''session:''),
      (''redis.sessions.id_generator'', SObject ''my.generator'')]
       = Inl ConfigurationError \<and>
   (\<exists>options. parse_settings int_of_setting float_of_setting asbool_of_setting
     [(''redis.sessions.secret'', SStr ''s3cret''),
      (''redis.sessions.prefix'', SStr ''session:''),
      (''redis.sessions.cookie_secure'', SStr ''true''),
      (''redis.sessions.timeout'', SStr ''1200'')] = Inr options \<and>
      options ''secret'' = Some (SStr ''s3cret'') \<and>
      options ''prefix'' = None \<and>
      options ''id_generator'' = Some (SPrefixedId (SStr ''session:'')) \<and>
      options ''cookie_secure'' = Some (SBool True) \<and>
      options ''timeout'' = Some (SInt 1200)) \<and>
   parse_settings int_of_setting float_of_setting asbool_of_setting
     [(''redis.sessions.secret'', SStr ''s3cret''),
      (''redis.sessions.port'', SStr ''abc'')] = Inl ValueError \<and>
   parse_settings_legacy int_of_setting float_of_setting asbool_of_setting
     [(''redis.sessions.timeout'', SStr ''1200'')] = Inl ConfigurationError \<and>
   parse_settings_legacy int_of_setting float_of_setting asbool_of_setting
     [(''redis.sessions.secret'', SStr ''s3cret''),
      (''redis.sessions.prefix'', SStr ''session:''),
      (''redis.sessions.id_generator'', SObject ''my.generator'')]
       = Inl ConfigurationError \<and>
   (\<exists>options. parse_settings_legacy int_of_setting float_of_setting asbool_of_setting
     [(''redis.sessions.secret'', SStr ''s3cret''),
      (''redis.sessions.prefix'', SStr ''session:''),
      (''redis.sessions.cookie_secure'', SStr ''true''),
      (''redis.sessions.timeout'', SStr ''1200'')] = Inr options \<and>
      options ''secret'' = Some (SStr ''s3cret'') \<and>
      options ''prefix'' = None \<and>
      options ''id_generator'' = Some (SPrefixedId (SStr ''session:'')) \<and>
      options ''cookie_secure'' = Some (SBool True) \<and>
      options ''timeout'' = Some (SInt 1200))"
proof -
  note defs = startswith_def last_component_def options_get_def configs_bool_def
    configs_int_def configs_int_none_def legacy_bools_def legacy_ints_def digit_value_def
  have e: "parse_settings int_of_setting float_of_setting asbool_of_setting
     [(''redis.sessions.secret'', SStr ''s3cret''),
      (''redis.sessions.port'', SStr ''abc'')] = Inl ValueError"
    by (simp add: parse_settings_def defs)
  have a: "parse_settings int_of_setting float_of_setting asbool_of_setting
       [(''redis.sessions.timeout'', SStr ''1200'')] = Inl ConfigurationError \<and>
     parse_settings_legacy int_of_setting float_of_setting asbool_of_setting
       [(''redis.sessions.timeout'', SStr ''1200'')] = Inl ConfigurationError"
    using parse_settings_raises [where settings = "[(''redis.sessions.timeout'', SStr ''1200'')]"
          and py_int = int_of_setting and py_float = float_of_setting
          and asbool = asbool_of_setting]
    by (simp add: defs)
  have b: "parse_settings int_of_setting float_of_setting asbool_of_setting
     [(''redis.sessions.secret'', SStr ''s3cret''),
      (''redis.sessions.cookie_signer'', SObject ''my.signer'')] = Inl ConfigurationError"
    using parse_settings_raises [where settings = "[(''redis.sessions.secret'', SStr ''s3cret''),
            (''redis.sessions.cookie_signer'', SObject ''my.signer'')]"
          and py_int = int_of_setting and py_float = float_of_setting
          and asbool = asbool_of_setting]
    by (simp add: defs)
  have c: "parse_settings int_of_setting float_of_setting asbool_of_setting
       [(''redis.sessions.secret'', SStr ''s3cret''),
        (''redis.sessions.prefix'', SStr ''session:''),
        (''redis.sessions.id_generator'', SObject ''my.generator'')]
         = Inl ConfigurationError \<and>
     parse_settings_legacy int_of_setting float_of_setting asbool_of_setting
       [(''redis.sessions.secret'', SStr ''s3cret''),
        (''redis.sessions.prefix'', SStr ''session:''),
        (''redis.sessions.id_generator'', SObject ''my.generator'')]
         = Inl ConfigurationError"
    using parse_settings_raises [where settings = "[(''redis.sessions.secret'', SStr ''s3cret''),
            (''redis.sessions.prefix'', SStr ''session:''),
            (''redis.sessions.id_generator'', SObject ''my.generator'')]"
          and py_int = int_of_setting and py_float = float_of_setting
          and asbool = asbool_of_setting]
    by (simp add: defs)
  have d: "(\<exists>options. parse_settings int_of_setting float_of_setting asbool_of_setting
     [(''redis.sessions.secret'', SStr ''s3cret''),
      (''redis.sessions.prefix'', SStr ''session:''),
      (''redis.sessions.cookie_secure'', SStr ''true''),
      (''redis.sessions.timeout'', SStr ''1200'')] = Inr options \<and>
      options ''secret'' = Some (SStr ''s3cret'') \<and>
      options ''prefix'' = None \<and>
      options ''id_generator'' = Some (SPrefixedId (SStr ''session:'')) \<and>
      options ''cookie_secure'' = Some (SBool True) \<and>
      options ''timeout'' = Some (SInt 1200)) \<and>
   (\<exists>options. parse_settings_legacy int_of_setting float_of_setting asbool_of_setting
     [(''redis.sessions.secret'', SStr ''s3cret''),
      (''redis.sessions.prefix'', SStr ''session:''),
      (''redis.sessions.cookie_secure'', SStr ''true''),
      (''redis.sessions.timeout'', SStr ''1200'')] = Inr options \<and>
      options ''secret'' = Some (SStr ''s3cret'') \<and>
      options ''prefix'' = None \<and>
      options ''id_generator'' = Some (SPrefixedId (SStr ''session:'')) \<and>
      options ''cookie_secure'' = Some (SBool True) \<and>
      options ''timeout'' = Some (SInt 1200))"
    using parse_settings_raises [where settings = "[(''redis.sessions.secret'', SStr ''s3cret''),
            (''redis.sessions.prefix'', SStr ''session:''),
            (''redis.sessions.cookie_secure'', SStr ''true''),
            (''redis.sessions.timeout'', SStr ''1200'')]"
          and py_int = int_of_setting and py_float = float_of_setting
          and asbool = asbool_of_setting]
    by (simp add: defs)
  show ?thesis
    using a b c d e by blast
qed

section \<open>Properties of the identifier allocator\<close>

lemma insert_cases:
  "insert_session_id_if_unique r timeout sid serialize flag dp npf pe ed now o1 o2 =
     (let r1 = redis_run o1 r; r2 = redis_run o2 r1;
          v = serialize (case dp of Some p \<Rightarrow> p
                 | None \<Rightarrow> (case npf of Some f \<Rightarrow> f ()
                     | None \<Rightarrow> empty_session_payload ed timeout pe now))
      in if kv r1 sid \<noteq> None then (r1, Inr None)
         else if watched_key_changed sid (o1 @ o2) r then (r2, Inr None)
         else (redis_apply (case timeout of
                     Some t \<Rightarrow> if t \<noteq> 0 \<and> flag then SETEX sid t v else SET sid v
                   | None \<Rightarrow> SET sid v) r2, Inr (Some sid)))"
  by (auto simp: insert_session_id_if_unique_def pipe_execute_def redis_run_def Let_def
           split: option.splits)

lemma insert_never_raises:
  "snd (insert_session_id_if_unique r timeout sid serialize flag dp npf pe ed now o1 o2)
     \<noteq> Inl err"
  by (simp add: insert_cases Let_def)

lemma kv_redis_apply_write:
  "kv (redis_apply (case timeout of
                     Some t \<Rightarrow> if t \<noteq> 0 \<and> flag then SETEX sid t v else SET sid v
                   | None \<Rightarrow> SET sid v) r) sid = Some v"
  by (auto split: option.splits)

lemma create_never_raises:
  "snd (create_unique_session_id r timeout serialize schedule flag dp npf pe ed) \<noteq> Inl err"
proof (induction schedule arbitrary: r)
  case Nil
  then show ?case by simp
next
  case (Cons a schedule)
  obtain r1 out where i: "insert_session_id_if_unique r timeout (generated a) serialize flag
      dp npf pe ed (clock a) (before_get a) (before_execute a) = (r1, out)"
    by (cases "insert_session_id_if_unique r timeout (generated a) serialize flag
      dp npf pe ed (clock a) (before_get a) (before_execute a)")
  have "out \<noteq> Inl err" for err
    using insert_never_raises[of r timeout "generated a" serialize flag dp npf pe ed
        "clock a" "before_get a" "before_execute a" err] i by simp
  then show ?case
    using Cons.IH[of r1] i by (auto simp: Let_def split: sum.splits option.splits)
qed

lemma create_returned_id:
  assumes "create_unique_session_id r timeout serialize schedule flag dp npf pe ed
             = (r', Inr (Some sid))"
  shows "\<exists>pre a post r0.
           schedule = pre @ a # post \<and>
           create_unique_session_id r timeout serialize pre flag dp npf pe ed = (r0, Inr None) \<and>
           sid = generated a \<and>
           insert_session_id_if_unique r0 timeout (generated a) serialize flag dp npf pe ed
             (clock a) (before_get a) (before_execute a) = (r', Inr (Some sid))"
  using assms
proof (induction schedule arbitrary: r)
  case Nil
  then show ?case by simp
next
  case (Cons a schedule)
  obtain r1 out where i: "insert_session_id_if_unique r timeout (generated a) serialize flag
      dp npf pe ed (clock a) (before_get a) (before_execute a) = (r1, out)"
    by (cases "insert_session_id_if_unique r timeout (generated a) serialize flag
      dp npf pe ed (clock a) (before_get a) (before_execute a)")
  show ?case
  proof (cases out)
    case (Inl err)
    with Cons.prems i show ?thesis by (simp add: Let_def)
  next
    case (Inr res)
    show ?thesis
    proof (cases res)
      case None
      with Cons.prems i Inr
      have "create_unique_session_id r1 timeout serialize schedule flag dp npf pe ed
              = (r', Inr (Some sid))"
        by (simp add: Let_def)
      from Cons.IH[OF this] obtain pre b post r0 where
        s: "schedule = pre @ b # post"
        and p: "create_unique_session_id r1 timeout serialize pre flag dp npf pe ed
                  = (r0, Inr None)"
        and g: "sid = generated b"
        and w: "insert_session_id_if_unique r0 timeout (generated b) serialize flag dp npf pe
                  ed (clock b) (before_get b) (before_execute b) = (r', Inr (Some sid))"
        by blast
      have "create_unique_session_id r timeout serialize (a # pre) flag dp npf pe ed
              = (r0, Inr None)"
        using i Inr None p by (simp add: Let_def)
      moreover have "a # schedule = (a # pre) @ b # post" using s by simp
      ultimately show ?thesis using g w by blast
    next
      case (Some s)
      with Cons.prems i Inr have r': "r1 = r'" and s: "s = sid" by (simp_all add: Let_def)
      have sid: "sid = generated a"
        using i Inr Some s by (auto simp: insert_cases Let_def split: if_splits)
      have "create_unique_session_id r timeout serialize [] flag dp npf pe ed = (r, Inr None)"
        by simp
      moreover have "a # schedule = [] @ a # schedule" by simp
      moreover have "insert_session_id_if_unique r timeout (generated a) serialize flag dp
          npf pe ed (clock a) (before_get a) (before_execute a) = (r', Inr (Some sid))"
        using i Inr Some r' s by simp
      ultimately show ?thesis using sid by blast
    qed
  qed
qed

text \<open>
  Claim C1: \<^verbatim>\<open>create_unique_session_id\<close> never raises in this store: a conflict is not
  surfaced. Whenever an attempt finds the candidate key holding a value when it reads it
  under the watch, or another client changes the key between the watch and the commit
  (the commit raises \<^verbatim>\<open>WatchError\<close>), the attempt yields \<^verbatim>\<open>None\<close> and the loop goes on
  with the next generated id, from the store as the attempt left it. And an id that is
  returned is the id generated for one turn of the loop, all turns before it having
  yielded \<^verbatim>\<open>None\<close>; in that turn the key was read absent under the watch, no other
  client changed it before the commit, and the commit wrote the serialized payload under
  it. An attempt that meets no conflict ends the loop with its id.
\<close>

theorem create_unique_session_id_retries_until_committed:
  "(\<forall>err. snd (create_unique_session_id r timeout serialize schedule flag dp npf pe ed)
            \<noteq> Inl err) \<and>
   ((kv (redis_run (before_get a) r) (generated a) \<noteq> None \<or>
     watched_key_changed (generated a) (before_get a @ before_execute a) r) \<longrightarrow>
      snd (insert_session_id_if_unique r timeout (generated a) serialize flag dp npf pe ed
             (clock a) (before_get a) (before_execute a)) = Inr None \<and>
      create_unique_session_id r timeout serialize (a # rest) flag dp npf pe ed =
        create_unique_session_id
          (fst (insert_session_id_if_unique r timeout (generated a) serialize flag dp npf pe
                  ed (clock a) (before_get a) (before_execute a)))
          timeout serialize rest flag dp npf pe ed) \<and>
   (\<forall>r' sid.
      create_unique_session_id r timeout serialize schedule flag dp npf pe ed
        = (r', Inr (Some sid)) \<longrightarrow>
      (\<exists>pre b post r0.
         schedule = pre @ b # post \<and>
         create_unique_session_id r timeout serialize pre flag dp npf pe ed = (r0, Inr None) \<and>
         sid = generated b \<and>
         kv (redis_run (before_get b) r0) sid = None \<and>
         \<not> watched_key_changed sid (before_get b @ before_execute b) r0 \<and>
         insert_session_id_if_unique r0 timeout sid serialize flag dp npf pe ed
           (clock b) (before_get b) (before_execute b) = (r', Inr (Some sid)) \<and>
         kv r' sid =
           Some (serialize
                   (case dp of
                      Some p \<Rightarrow> p
                    | None \<Rightarrow>
                        (case npf of
                           Some f \<Rightarrow> f ()
                         | None \<Rightarrow> empty_session_payload ed timeout pe (clock b)))))) \<and>
   (kv (redis_run (before_get a) r) (generated a) = None \<and>
    \<not> watched_key_changed (generated a) (before_get a @ before_execute a) r \<longrightarrow>
      snd (create_unique_session_id r timeout serialize (a # rest) flag dp npf pe ed)
        = Inr (Some (generated a)))"
proof (intro conjI allI impI)
  fix err
  show "snd (create_unique_session_id r timeout serialize schedule flag dp npf pe ed)
          \<noteq> Inl err"
    by (rule create_never_raises)
next
  assume c: "kv (redis_run (before_get a) r) (generated a) \<noteq> None \<or>
     watched_key_changed (generated a) (before_get a @ before_execute a) r"
  then show n: "snd (insert_session_id_if_unique r timeout (generated a) serialize flag dp
      npf pe ed (clock a) (before_get a) (before_execute a)) = Inr None"
    by (auto simp: insert_cases Let_def)
  then show "create_unique_session_id r timeout serialize (a # rest) flag dp npf pe ed =
        create_unique_session_id
          (fst (insert_session_id_if_unique r timeout (generated a) serialize flag dp npf pe
                  ed (clock a) (before_get a) (before_execute a)))
          timeout serialize rest flag dp npf pe ed"
    by (cases "insert_session_id_if_unique r timeout (generated a) serialize flag dp
      npf pe ed (clock a) (before_get a) (before_execute a)") (simp add: Let_def)
next
  fix r' sid
  assume "create_unique_session_id r timeout serialize schedule flag dp npf pe ed
        = (r', Inr (Some sid))"
  from create_returned_id[OF this] obtain pre b post r0 where
        s: "schedule = pre @ b # post"
        and p: "create_unique_session_id r timeout serialize pre flag dp npf pe ed
                  = (r0, Inr None)"
        and g: "sid = generated b"
        and w: "insert_session_id_if_unique r0 timeout (generated b) serialize flag dp npf pe
                  ed (clock b) (before_get b) (before_execute b) = (r', Inr (Some sid))"
    by blast
  have absent: "kv (redis_run (before_get b) r0) sid = None"
    and untouched: "\<not> watched_key_changed sid (before_get b @ before_execute b) r0"
    and written: "kv r' sid =
           Some (serialize
                   (case dp of
                      Some p \<Rightarrow> p
                    | None \<Rightarrow>
                        (case npf of
                           Some f \<Rightarrow> f ()
                         | None \<Rightarrow> empty_session_payload ed timeout pe (clock b))))"
    using w g kv_redis_apply_write
    by (auto simp: insert_cases Let_def split: if_splits)
  show "\<exists>pre b post r0.
         schedule = pre @ b # post \<and>
         create_unique_session_id r timeout serialize pre flag dp npf pe ed = (r0, Inr None) \<and>
         sid = generated b \<and>
         kv (redis_run (before_get b) r0) sid = None \<and>
         \<not> watched_key_changed sid (before_get b @ before_execute b) r0 \<and>
         insert_session_id_if_unique r0 timeout sid serialize flag dp npf pe ed
           (clock b) (before_get b) (before_execute b) = (r', Inr (Some sid)) \<and>
         kv r' sid =
           Some (serialize
                   (case dp of
                      Some p \<Rightarrow> p
                    | None \<Rightarrow>
                        (case npf of
                           Some f \<Rightarrow> f ()
                         | None \<Rightarrow> empty_session_payload ed timeout pe (clock b))))"
    using s p g absent untouched w written by blast
next
  assume "kv (redis_run (before_get a) r) (generated a) = None \<and>
    \<not> watched_key_changed (generated a) (before_get a @ before_execute a) r"
  then show "snd (create_unique_session_id r timeout serialize (a # rest) flag dp npf pe ed)
        = Inr (Some (generated a))"
    by (auto simp: insert_cases Let_def)
qed

text \<open>
  A store in which \<^verbatim>\<open>taken\<close> holds a value. The generator returns \<^verbatim>\<open>taken\<close>, then
  \<^verbatim>\<open>raced\<close> (which another client sets between the read and the commit), then \<^verbatim>\<open>fresh\<close>
  (on which another client runs a \<open>DEL\<close>, which changes nothing as the key is absent).
  The first attempt yields \<^verbatim>\<open>None\<close>, the call returns \<^verbatim>\<open>fresh\<close>, and the store holds the
  other client's value under \<^verbatim>\<open>raced\<close>.
\<close>

theorem create_unique_session_id_retries_until_committed_witness:
  "snd (insert_session_id_if_unique
          \<lparr>kv = [''taken'' \<mapsto> []], ttl = Map.empty\<rparr> (Some 100) ''taken''
          example_serialize True None None None ([] :: string list) 1000 [] [])
     = Inr None \<and>
   snd (create_unique_session_id
          \<lparr>kv = [''taken'' \<mapsto> []], ttl = Map.empty\<rparr> (Some 100) example_serialize
          [\<lparr>generated = ''taken'', clock = 1000, before_get = [], before_execute = []\<rparr>,
           \<lparr>generated = ''raced'', clock = 1001, before_get = [],
             before_execute = [SET ''raced'' []]\<rparr>,
           \<lparr>generated = ''fresh'', clock = 1002, before_get = [],
             before_execute = [DEL ''fresh'']\<rparr>]
          True None None None ([] :: string list))
     = Inr (Some ''fresh'') \<and>
   kv (fst (create_unique_session_id
          \<lparr>kv = [''taken'' \<mapsto> []], ttl = Map.empty\<rparr> (Some 100) example_serialize
          [\<lparr>generated = ''taken'', clock = 1000, before_get = [], before_execute = []\<rparr>,
           \<lparr>generated = ''raced'', clock = 1001, before_get = [],
             before_execute = [SET ''raced'' []]\<rparr>,
           \<lparr>generated = ''fresh'', clock = 1002, before_get = [],
             before_execute = [DEL ''fresh'']\<rparr>]
          True None None None ([] :: string list))) ''raced''
     = Some []"
proof -
  let ?r = "\<lparr>kv = [''taken'' \<mapsto> ([] :: (string \<times> string list pyval) list)],
             ttl = Map.empty\<rparr>"
  let ?a = "\<lparr>generated = ''taken'', clock = 1000,
              before_get = ([] :: (string \<times> string list pyval) list command list),
              before_execute = []\<rparr>"
  have occupied: "kv (redis_run (before_get ?a) ?r) (generated ?a) \<noteq> None"
    by (simp add: redis_run_def)
  note inst = create_unique_session_id_retries_until_committed
            [where r = "?r" and a = "?a" and timeout = "Some 100"
               and serialize = example_serialize and flag = True and dp = None
               and npf = None and pe = None and ed = "[] :: string list"
               and schedule = "[]" and rest = "[]"]
  have "snd (insert_session_id_if_unique ?r (Some 100) (generated ?a)
          example_serialize True None None None ([] :: string list) (clock ?a)
          (before_get ?a) (before_execute ?a)) = Inr None"
    using inst occupied by blast
  then have first: "snd (insert_session_id_if_unique ?r (Some 100) ''taken''
          example_serialize True None None None ([] :: string list) 1000 [] []) = Inr None"
    by simp
  have run1: "snd (create_unique_session_id ?r (Some 100) example_serialize
          [\<lparr>generated = ''taken'', clock = 1000, before_get = [], before_execute = []\<rparr>,
           \<lparr>generated = ''raced'', clock = 1001, before_get = [],
             before_execute = [SET ''raced'' []]\<rparr>,
           \<lparr>generated = ''fresh'', clock = 1002, before_get = [],
             before_execute = [DEL ''fresh'']\<rparr>]
          True None None None ([] :: string list))
     = Inr (Some ''fresh'')"
    by (simp add: insert_cases Let_def redis_run_def)
  have run2: "kv (fst (create_unique_session_id ?r (Some 100) example_serialize
          [\<lparr>generated = ''taken'', clock = 1000, before_get = [], before_execute = []\<rparr>,
           \<lparr>generated = ''raced'', clock = 1001, before_get = [],
             before_execute = [SET ''raced'' []]\<rparr>,
           \<lparr>generated = ''fresh'', clock = 1002, before_get = [],
             before_execute = [DEL ''fresh'']\<rparr>]
          True None None None ([] :: string list))) ''raced''
     = Some []"
    by (simp add: insert_cases Let_def redis_run_def)
  from first run1 run2 show ?thesis by blast
qed

lemma insert_legacy_cases:
  "insert_session_id_if_unique_legacy r timeout sid serialize o1 o2 =
     (let r1 = redis_run o1 r; r2 = redis_run o2 r1
      in if kv r1 sid \<noteq> None then (r1, Inr None)
         else if watched_key_changed sid (o1 @ o2) r then (r2, Inr None)
         else (redis_run [SET sid (serialize Map.empty), EXPIRE sid timeout] r2,
               Inr (Some sid)))"
  by (auto simp: insert_session_id_if_unique_legacy_def pipe_execute_def Let_def)

text \<open>
  Claim C5, as stated, fails for the legacy allocator it also cites: with timeout 0 the
  legacy \<^verbatim>\<open>_insert_session_id_if_unique\<close> does not write the key with a plain \<open>SET\<close>; it
  runs \<open>SET\<close> and then \<open>EXPIRE\<close> with 0 seconds, after which the key is gone again, where
  the plain \<open>SET\<close> would leave the value under it. With timeout 100 the TTL is set by the
  second command.
\<close>

theorem legacy_allocation_always_expires:
  "insert_session_id_if_unique_legacy \<lparr>kv = Map.empty, ttl = Map.empty\<rparr> 0 ''fresh''
       example_serialize [] []
     = (redis_run [SET ''fresh'' (example_serialize (Map.empty :: string list payload)),
                   EXPIRE ''fresh'' 0] \<lparr>kv = Map.empty, ttl = Map.empty\<rparr>,
        Inr (Some ''fresh'')) \<and>
   kv (fst (insert_session_id_if_unique_legacy \<lparr>kv = Map.empty, ttl = Map.empty\<rparr> 0
          ''fresh'' (example_serialize :: string list payload \<Rightarrow> _) [] [])) ''fresh'' = None \<and>
   kv (redis_apply (SET ''fresh'' (example_serialize (Map.empty :: string list payload)))
         \<lparr>kv = Map.empty, ttl = Map.empty\<rparr>) ''fresh''
     = Some (example_serialize Map.empty) \<and>
   insert_session_id_if_unique_legacy \<lparr>kv = Map.empty, ttl = Map.empty\<rparr> 100 ''fresh''
       example_serialize [] []
     = (redis_apply (EXPIRE ''fresh'' 100)
          (redis_apply (SET ''fresh'' (example_serialize (Map.empty :: string list payload)))
             \<lparr>kv = Map.empty, ttl = Map.empty\<rparr>),
        Inr (Some ''fresh''))"
  by (simp add: insert_legacy_cases redis_run_def Let_def)

text \<open>
  Claim C5, amended: take an attempt that commits (the key read absent under the watch,
  no other client changing it before the commit). In \<^verbatim>\<open>pyramid_session_redis\<close>: when the
  timeout is positive and \<^verbatim>\<open>set_redis_ttl\<close> is set, the store after the attempt is the
  store before the commit with the single command \<open>SETEX\<close> applied: the value and the TTL
  of the key are set together; when the timeout is unset or zero, or the flag is false, it
  is the store before the commit with a plain \<open>SET\<close> applied, and the key has no TTL. In
  the legacy \<^verbatim>\<open>pyramid_redis_sessions\<close>, which has no flag: for every timeout the store
  after the attempt is the store before the commit with \<open>SET\<close> and then \<open>EXPIRE\<close> applied
  in one transaction; the key has the TTL when the timeout is positive and is removed
  again when it is not.
\<close>

theorem allocation_initial_write:
  fixes serialize :: "'m payload \<Rightarrow> 'v"
  defines "written \<equiv> \<lambda>timeout dp npf pe ed now.
             serialize (case dp of
                          Some p \<Rightarrow> p
                        | None \<Rightarrow>
                            (case npf of
                               Some f \<Rightarrow> f ()
                             | None \<Rightarrow> empty_session_payload ed timeout pe now))"
  assumes "kv (redis_run o1 r) sid = None"
    and "\<not> watched_key_changed sid (o1 @ o2) r"
  shows "(0 < t \<and> flag \<longrightarrow>
            insert_session_id_if_unique r (Some t) sid serialize flag dp npf pe ed now o1 o2
              = (redis_apply (SETEX sid t (written (Some t) dp npf pe ed now))
                   (redis_run o2 (redis_run o1 r)), Inr (Some sid)) \<and>
            ttl (fst (insert_session_id_if_unique r (Some t) sid serialize flag dp npf pe ed
                        now o1 o2)) sid = Some t) \<and>
         (timeout = None \<or> timeout = Some 0 \<or> \<not> flag \<longrightarrow>
            insert_session_id_if_unique r timeout sid serialize flag dp npf pe ed now o1 o2
              = (redis_apply (SET sid (written timeout dp npf pe ed now))
                   (redis_run o2 (redis_run o1 r)), Inr (Some sid)) \<and>
            ttl (fst (insert_session_id_if_unique r timeout sid serialize flag dp npf pe ed
                        now o1 o2)) sid = None) \<and>
         insert_session_id_if_unique_legacy r legacy_timeout sid serialize o1 o2
           = (redis_apply (EXPIRE sid legacy_timeout)
                (redis_apply (SET sid (serialize Map.empty)) (redis_run o2 (redis_run o1 r))),
              Inr (Some sid)) \<and>
         (0 < legacy_timeout \<longrightarrow>
            kv (fst (insert_session_id_if_unique_legacy r legacy_timeout sid serialize o1 o2))
               sid = Some (serialize Map.empty) \<and>
            ttl (fst (insert_session_id_if_unique_legacy r legacy_timeout sid serialize o1 o2))
               sid = Some legacy_timeout) \<and>
         (legacy_timeout \<le> 0 \<longrightarrow>
            kv (fst (insert_session_id_if_unique_legacy r legacy_timeout sid serialize o1 o2))
               sid = None)"
proof -
  have new: "(0 < t \<and> flag \<longrightarrow>
            insert_session_id_if_unique r (Some t) sid serialize flag dp npf pe ed now o1 o2
              = (redis_apply (SETEX sid t (written (Some t) dp npf pe ed now))
                   (redis_run o2 (redis_run o1 r)), Inr (Some sid)) \<and>
            ttl (fst (insert_session_id_if_unique r (Some t) sid serialize flag dp npf pe ed
                        now o1 o2)) sid = Some t) \<and>
         (timeout = None \<or> timeout = Some 0 \<or> \<not> flag \<longrightarrow>
            insert_session_id_if_unique r timeout sid serialize flag dp npf pe ed now o1 o2
              = (redis_apply (SET sid (written timeout dp npf pe ed now))
                   (redis_run o2 (redis_run o1 r)), Inr (Some sid)) \<and>
            ttl (fst (insert_session_id_if_unique r timeout sid serialize flag dp npf pe ed
                        now o1 o2)) sid = None)"
    using assms(2,3) unfolding written_def
    by (cases timeout) (auto simp: insert_cases Let_def)
  have legacy: "insert_session_id_if_unique_legacy r legacy_timeout sid serialize o1 o2
           = (redis_apply (EXPIRE sid legacy_timeout)
                (redis_apply (SET sid (serialize Map.empty)) (redis_run o2 (redis_run o1 r))),
              Inr (Some sid))"
    using assms(2,3) by (simp add: insert_legacy_cases Let_def redis_run_def)
  have pos: "0 < legacy_timeout \<longrightarrow>
            kv (fst (insert_session_id_if_unique_legacy r legacy_timeout sid serialize o1 o2))
               sid = Some (serialize Map.empty) \<and>
            ttl (fst (insert_session_id_if_unique_legacy r legacy_timeout sid serialize o1 o2))
               sid = Some legacy_timeout"
    by (simp add: legacy)
  have nonpos: "legacy_timeout \<le> 0 \<longrightarrow>
            kv (fst (insert_session_id_if_unique_legacy r legacy_timeout sid serialize o1 o2))
               sid = None"
    by (simp add: legacy)
  show ?thesis
    by (rule conjI[OF conjunct1[OF new] conjI[OF conjunct2[OF new]
          conjI[OF legacy conjI[OF pos nonpos]]]])
qed

text \<open>
  An empty store, another client writing another key meanwhile: with timeout 100 and the
  flag set the new key has TTL 100; with the flag false, and with timeout 0, it has
  none. The legacy allocator with timeout 100 leaves the key with TTL 100.
\<close>

theorem allocation_initial_write_witness:
  "ttl (fst (insert_session_id_if_unique \<lparr>kv = Map.empty, ttl = Map.empty\<rparr> (Some 100)
          ''fresh'' example_serialize True None None None ([] :: string list) 1000 []
          [SET ''other'' []])) ''fresh'' = Some 100 \<and>
   ttl (fst (insert_session_id_if_unique \<lparr>kv = Map.empty, ttl = Map.empty\<rparr> (Some 100)
          ''fresh'' example_serialize False None None None ([] :: string list) 1000 []
          [SET ''other'' []])) ''fresh'' = None \<and>
   ttl (fst (insert_session_id_if_unique \<lparr>kv = Map.empty, ttl = Map.empty\<rparr> (Some 0)
          ''fresh'' example_serialize True None None None ([] :: string list) 1000 []
          [SET ''other'' []])) ''fresh'' = None \<and>
   ttl (fst (insert_session_id_if_unique_legacy \<lparr>kv = Map.empty, ttl = Map.empty\<rparr> 100
          ''fresh'' (example_serialize :: string list payload \<Rightarrow> _) []
          [SET ''other'' []])) ''fresh'' = Some 100"
proof -
  let ?r = "\<lparr>kv = (Map.empty :: string \<rightharpoonup> (string \<times> string list pyval) list),
             ttl = Map.empty\<rparr>"
  let ?o2 = "[SET ''other'' ([] :: (string \<times> string list pyval) list)]"
  have absent: "kv (redis_run [] ?r) ''fresh'' = None"
    by (simp add: redis_run_def)
  have unchanged: "\<not> watched_key_changed ''fresh'' ([] @ ?o2) ?r"
    by simp
  have pos: "(0::int) < 100 \<and> True" by simp
  note a = allocation_initial_write [OF absent unchanged,
            where t = 100 and flag = True
              and serialize = "example_serialize :: string list payload \<Rightarrow> _"
              and timeout = "Some 0" and dp = None and npf = None and pe = None
              and ed = "[] :: string list" and now = 1000 and legacy_timeout = 100]
  note b = allocation_initial_write [OF absent unchanged,
            where t = 100 and flag = False
              and serialize = "example_serialize :: string list payload \<Rightarrow> _"
              and timeout = "Some 100" and dp = None and npf = None and pe = None
              and ed = "[] :: string list" and now = 1000 and legacy_timeout = 100]
  have 1: "ttl (fst (insert_session_id_if_unique ?r (Some 100)
          ''fresh'' example_serialize True None None None ([] :: string list) 1000 []
          ?o2)) ''fresh'' = Some 100"
    using a pos by blast
  have 2: "ttl (fst (insert_session_id_if_unique ?r (Some 100)
          ''fresh'' example_serialize False None None None ([] :: string list) 1000 []
          ?o2)) ''fresh'' = None"
    using b by blast
  have 3: "ttl (fst (insert_session_id_if_unique ?r (Some 0)
          ''fresh'' example_serialize True None None None ([] :: string list) 1000 []
          ?o2)) ''fresh'' = None"
    using a by blast
  have 4: "ttl (fst (insert_session_id_if_unique_legacy ?r 100
          ''fresh'' (example_serialize :: string list payload \<Rightarrow> _) [] ?o2)) ''fresh''
            = Some 100"
    using a by simp
  from 1 2 3 4 show ?thesis by blast
qed

section \<open>Properties of the identifier generator\<close>

lemma alphabet_length: "length urlsafe_alphabet = 64"
  by (simp add: urlsafe_alphabet_def)

lemma alphabet_distinct: "distinct urlsafe_alphabet"
  by (simp add: urlsafe_alphabet_def)

lemma alphabet_no_pad: "CHR ''='' \<notin> set urlsafe_alphabet"
  by (simp add: urlsafe_alphabet_def)

lemma alphabet_nth_inj:
  "i < 64 \<Longrightarrow> j < 64 \<Longrightarrow> urlsafe_alphabet ! i = urlsafe_alphabet ! j \<Longrightarrow> i = j"
  using alphabet_distinct alphabet_length nth_eq_iff_index_eq by metis

lemma div_mod_eq:
  fixes n m :: nat
  assumes "n div 64 = m div 64" and "n mod 64 = m mod 64"
  shows "n = m"
proof -
  have "n = n div 64 * 64 + n mod 64" by simp
  also have "\<dots> = m div 64 * 64 + m mod 64" using assms by simp
  also have "\<dots> = m" by simp
  finally show ?thesis .
qed

lemma sextets_eq:
  fixes n m :: nat
  assumes "n div 262144 = m div 262144"
    and "n div 4096 mod 64 = m div 4096 mod 64"
    and "n div 64 mod 64 = m div 64 mod 64"
    and "n mod 64 = m mod 64"
  shows "n = m"
proof -
  have a: "\<And>k::nat. k div 64 div 64 = k div 4096" by (simp add: div_mult2_eq)
  have b: "\<And>k::nat. k div 4096 div 64 = k div 262144" by (simp add: div_mult2_eq)
  have "n div 4096 div 64 = m div 4096 div 64" using assms(1) by (simp only: b)
  then have "n div 4096 = m div 4096" using assms(2) by (rule div_mod_eq)
  then have "n div 64 div 64 = m div 64 div 64" by (simp only: a)
  then have "n div 64 = m div 64" using assms(3) by (rule div_mod_eq)
  then show ?thesis using assms(4) by (rule div_mod_eq)
qed

lemma bytes_eq:
  fixes a b c a' b' c' :: nat
  assumes eq: "a * 65536 + b * 256 + c = a' * 65536 + b' * 256 + c'"
    and "a < 256" "b < 256" "c < 256" "a' < 256" "b' < 256" "c' < 256"
  shows "a = a' \<and> b = b' \<and> c = c'"
proof -
  have r: "b * 256 + c < 65536" "b' * 256 + c' < 65536" using assms by linarith+
  have "(a * 65536 + (b * 256 + c)) div 65536 = a" using r(1) by simp
  moreover have "(a' * 65536 + (b' * 256 + c')) div 65536 = a'" using r(2) by simp
  ultimately have a: "a = a'" using eq by (simp add: add.assoc)
  then have e2: "b * 256 + c = b' * 256 + c'" using eq by simp
  have "(b * 256 + c) div 256 = b" using assms(4) by simp
  moreover have "(b' * 256 + c') div 256 = b'" using assms(7) by simp
  ultimately have b: "b = b'" using e2 by simp
  then have "c = c'" using e2 by simp
  with a b show ?thesis by simp
qed

lemma byte_bound: "unat (a :: byte) < 256"
proof -
  have "unat a < 2 ^ LENGTH(8)" by (rule unsigned_less)
  then show ?thesis by simp
qed

lemma group_value_bound: "unat (a::byte) * 65536 + unat (b::byte) * 256 + unat (c::byte) < 16777216"
  using byte_bound[of a] byte_bound[of b] byte_bound[of c] by linarith

lemma group_in_alphabet: "set (b64_group a b c) \<subseteq> set urlsafe_alphabet"
proof -
  have "(unat a * 65536 + unat b * 256 + unat c) div 262144 < 64"
    using group_value_bound[of a b c] by linarith
  then show ?thesis
    by (simp add: b64_group_def Let_def alphabet_length)
qed

lemma group_length: "length (b64_group a b c) = 4"
  by (simp add: b64_group_def Let_def)

lemma group_inj:
  assumes "b64_group a b c = b64_group a' b' c'"
  shows "a = a' \<and> b = b' \<and> c = c'"
proof -
  define n where "n = unat a * 65536 + unat b * 256 + unat c"
  define m where "m = unat a' * 65536 + unat b' * 256 + unat c'"
  have n1: "n div 262144 < 64" unfolding n_def using group_value_bound[of a b c] by linarith
  have m1: "m div 262144 < 64" unfolding m_def using group_value_bound[of a' b' c'] by linarith
  from assms have e:
    "urlsafe_alphabet ! (n div 262144) = urlsafe_alphabet ! (m div 262144)"
    "urlsafe_alphabet ! (n div 4096 mod 64) = urlsafe_alphabet ! (m div 4096 mod 64)"
    "urlsafe_alphabet ! (n div 64 mod 64) = urlsafe_alphabet ! (m div 64 mod 64)"
    "urlsafe_alphabet ! (n mod 64) = urlsafe_alphabet ! (m mod 64)"
    by (simp_all add: b64_group_def Let_def n_def m_def)
  have 1: "n div 262144 = m div 262144" using alphabet_nth_inj[OF n1 m1 e(1)] .
  have 2: "n div 4096 mod 64 = m div 4096 mod 64"
    by (rule alphabet_nth_inj[OF _ _ e(2)]) simp_all
  have 3: "n div 64 mod 64 = m div 64 mod 64"
    by (rule alphabet_nth_inj[OF _ _ e(3)]) simp_all
  have 4: "n mod 64 = m mod 64"
    by (rule alphabet_nth_inj[OF _ _ e(4)]) simp_all
  have "n = m" using 1 2 3 4 by (rule sextets_eq)
  then have "unat a * 65536 + unat b * 256 + unat c
               = unat a' * 65536 + unat b' * 256 + unat c'"
    by (simp add: n_def m_def)
  then have "unat a = unat a' \<and> unat b = unat b' \<and> unat c = unat c'"
    by (rule bytes_eq) (rule byte_bound)+
  then show ?thesis by (simp add: word_unat_eq_iff)
qed

lemma encode_full_groups:
  "length bs mod 3 = 0 \<Longrightarrow>
     length (urlsafe_b64encode bs) = 4 * (length bs div 3) \<and>
     set (urlsafe_b64encode bs) \<subseteq> set urlsafe_alphabet"
proof (induction bs rule: urlsafe_b64encode.induct)
  case 1
  then show ?case by simp
next
  case (2 a)
  then show ?case by simp
next
  case (3 a b)
  then show ?case by simp
next
  case (4 a b c rest)
  then have "length rest mod 3 = 0" by simp
  moreover have "length (a # b # c # rest) div 3 = Suc (length rest div 3)" by simp
  ultimately show ?case
    using "4.IH" group_in_alphabet[of a b c] by (simp add: group_length)
qed

lemma rstrip_pad_id: "CHR ''='' \<notin> set s \<Longrightarrow> rstrip_pad s = s"
proof -
  assume "CHR ''='' \<notin> set s"
  then have "rev s = [] \<or> hd (rev s) \<noteq> CHR ''=''"
    by (cases "rev s") (auto simp: hd_rev)
  then have "dropWhile (\<lambda>c. c = CHR ''='') (rev s) = rev s"
    by (simp add: dropWhile_eq_self_iff)
  then show ?thesis by (simp add: rstrip_pad_def)
qed

lemma encode_inj:
  "length bs = length cs \<Longrightarrow> length bs mod 3 = 0 \<Longrightarrow>
     urlsafe_b64encode bs = urlsafe_b64encode cs \<Longrightarrow> bs = cs"
proof (induction bs arbitrary: cs rule: urlsafe_b64encode.induct)
  case 1
  then show ?case by simp
next
  case (2 a)
  then show ?case by simp
next
  case (3 a b)
  then show ?case by simp
next
  case (4 a b c rest)
  from "4.prems"(1) obtain a' b' c' rest' where cs: "cs = a' # b' # c' # rest'"
    by (cases cs rule: urlsafe_b64encode.cases) auto
  have len: "length rest = length rest'" "length rest mod 3 = 0"
    using "4.prems"(1,2) cs by simp_all
  have "b64_group a b c @ urlsafe_b64encode rest
          = b64_group a' b' c' @ urlsafe_b64encode rest'"
    using "4.prems"(3) cs by simp
  then have g: "b64_group a b c = b64_group a' b' c'"
    and r: "urlsafe_b64encode rest = urlsafe_b64encode rest'"
    by (simp_all add: group_length)
  from "4.IH"[OF len r] group_inj[OF g] cs show ?case by simp
qed

lemma generated_id_current:
  "fst (generate_session_id (bytes, pos)) = urlsafe_b64encode (map bytes [pos ..< pos + 48]) \<and>
   snd (generate_session_id (bytes, pos)) = (bytes, pos + 48) \<and>
   length (fst (generate_session_id (bytes, pos))) = 64 \<and>
   set (fst (generate_session_id (bytes, pos))) \<subseteq> set urlsafe_alphabet \<and>
   CHR ''='' \<notin> set (fst (generate_session_id (bytes, pos))) \<and>
   (fst (generate_session_id (bytes, pos)) = fst (generate_session_id (bytes', pos')) \<longrightarrow>
      (\<forall>i < 48. bytes (pos + i) = bytes' (pos' + i)))"
proof -
  let ?bs = "map bytes [pos ..< pos + 48]"
  let ?cs = "map bytes' [pos' ..< pos' + 48]"
  have l: "length ?bs mod 3 = 0" "length ?cs mod 3 = 0" by simp_all
  have e: "length (urlsafe_b64encode ?bs) = 64"
    and a: "set (urlsafe_b64encode ?bs) \<subseteq> set urlsafe_alphabet"
    using encode_full_groups[OF l(1)] by simp_all
  have np: "CHR ''='' \<notin> set (urlsafe_b64encode ?bs)"
    using a alphabet_no_pad by blast
  have np': "CHR ''='' \<notin> set (urlsafe_b64encode ?cs)"
    using encode_full_groups[OF l(2)] alphabet_no_pad by blast
  have g: "generate_session_id (bytes, pos) = (urlsafe_b64encode ?bs, (bytes, pos + 48))"
    by (simp add: generate_session_id_def token_urlsafe_def os_urandom_def
          rstrip_pad_id[OF np])
  have g': "generate_session_id (bytes', pos') = (urlsafe_b64encode ?cs, (bytes', pos' + 48))"
    by (simp add: generate_session_id_def token_urlsafe_def os_urandom_def
          rstrip_pad_id[OF np'])
  have inj: "\<forall>i < 48. bytes (pos + i) = bytes' (pos' + i)"
    if "urlsafe_b64encode ?bs = urlsafe_b64encode ?cs"
  proof -
    have "?bs = ?cs" by (rule encode_inj[OF _ l(1) that]) simp
    then have "\<forall>i < 48. ?bs ! i = ?cs ! i" by simp
    then show ?thesis by simp
  qed
  show ?thesis using g g' e a np inj by simp
qed

lemma hex_digits_length: "length hex_digits = 16"
  by (simp add: hex_digits_def)

lemma hexdigest_chars: "set (hexdigest digest) \<subseteq> set hex_digits"
proof -
  have "hex_digits ! (unat b div 16) \<in> set hex_digits \<and>
        hex_digits ! (unat b mod 16) \<in> set hex_digits" for b :: byte
  proof -
    have "unat b div 16 < length hex_digits" "unat b mod 16 < length hex_digits"
      using byte_bound[of b] by (simp_all add: hex_digits_length)
    then show ?thesis by (simp only: nth_mem)
  qed
  then show ?thesis by (auto simp: hexdigest_def)
qed

lemma hexdigest_length: "length (hexdigest digest) = 2 * length digest"
  by (induction digest) (simp_all add: hexdigest_def)

lemma generated_id_legacy:
  "snd (generate_session_id_legacy sha256 (bytes, pos)) = (bytes, pos + 20) \<and>
   fst (generate_session_id_legacy sha256 (bytes, pos))
     = hexdigest (sha256 (sha256 (map bytes [pos ..< pos + 20]))) \<and>
   set (fst (generate_session_id_legacy sha256 (bytes, pos))) \<subseteq> set hex_digits \<and>
   CHR ''='' \<notin> set (fst (generate_session_id_legacy sha256 (bytes, pos))) \<and>
   ((\<forall>i < 20. bytes (pos + i) = bytes' (pos' + i)) \<longrightarrow>
      fst (generate_session_id_legacy sha256 (bytes, pos))
        = fst (generate_session_id_legacy sha256 (bytes', pos')))"
proof -
  have g: "generate_session_id_legacy sha256 (bytes, pos)
             = (hexdigest (sha256 (sha256 (map bytes [pos ..< pos + 20]))), (bytes, pos + 20))"
    by (simp add: generate_session_id_legacy_def os_urandom_def)
  have g': "generate_session_id_legacy sha256 (bytes', pos')
             = (hexdigest (sha256 (sha256 (map bytes' [pos' ..< pos' + 20]))),
                (bytes', pos' + 20))"
    by (simp add: generate_session_id_legacy_def os_urandom_def)
  have np: "CHR ''='' \<notin> set hex_digits" by (simp add: hex_digits_def)
  have same: "map bytes [pos ..< pos + 20] = map bytes' [pos' ..< pos' + 20]"
    if "\<forall>i < 20. bytes (pos + i) = bytes' (pos' + i)"
    by (rule nth_equalityI) (use that in simp_all)
  have chars: "set (hexdigest (sha256 (sha256 (map bytes [pos ..< pos + 20]))))
                 \<subseteq> set hex_digits"
    by (rule hexdigest_chars)
  have nopad: "CHR ''='' \<notin> set (hexdigest (sha256 (sha256 (map bytes [pos ..< pos + 20]))))"
    using chars np by blast
  have dep: "(\<forall>i < 20. bytes (pos + i) = bytes' (pos' + i)) \<longrightarrow>
      fst (generate_session_id_legacy sha256 (bytes, pos))
        = fst (generate_session_id_legacy sha256 (bytes', pos'))"
    using same by (simp add: g g')
  show ?thesis
    using chars nopad dep by (simp add: g)
qed

text \<open>
  Claim C6, as stated, fails for the legacy generator it also cites: a call reads 20
  bytes of the random source, not 48, and the id does not depend on the bytes that follow
  them.
\<close>

theorem legacy_generated_id_reads_20_bytes:
  "snd (generate_session_id_legacy example_sha256 ((\<lambda>i. of_nat i), 0))
     = ((\<lambda>i. of_nat i), 20) \<and>
   fst (generate_session_id_legacy example_sha256 ((\<lambda>i. of_nat i), 0))
     = fst (generate_session_id_legacy example_sha256
              ((\<lambda>i. if i < 20 then of_nat i else 255), 0))"
proof -
  have m: "map (\<lambda>i. if i < 20 then of_nat i else 255) [0 ..< 20]
          = map (\<lambda>i. of_nat i :: byte) [0 ..< 20]"
    by (rule map_cong) simp_all
  show ?thesis
    by (simp add: generate_session_id_legacy_def os_urandom_def m)
qed

text \<open>
  Claim C6, amended, with \<^verbatim>\<open>token_urlsafe\<close> as the spec describes it: every call of the
  default generator of \<^verbatim>\<open>pyramid_session_redis\<close> reads exactly 48 bytes from the random
  source and returns their URL-safe base64 text: 64 characters, every one in the alphabet
  \<^verbatim>\<open>A-Z a-z 0-9 - _\<close>, none of them the padding character; two calls that return the same
  id have read the same 48 bytes, so the id carries all the 384 bits that were read.
  Every call of the default generator of the legacy \<^verbatim>\<open>pyramid_redis_sessions\<close> reads
  exactly 20 bytes (160 bits) and returns the hexadecimal digest of the hash of the hash
  of these bytes: hexadecimal digits only, no padding character, and the same id for the
  same 20 bytes. (That the bytes of the source are cryptographically strong is a property
  of the operating system, not of this code.)
\<close>

theorem generated_ids:
  "(fst (generate_session_id (bytes, pos)) = urlsafe_b64encode (map bytes [pos ..< pos + 48]) \<and>
    snd (generate_session_id (bytes, pos)) = (bytes, pos + 48) \<and>
    length (fst (generate_session_id (bytes, pos))) = 64 \<and>
    set (fst (generate_session_id (bytes, pos))) \<subseteq> set urlsafe_alphabet \<and>
    CHR ''='' \<notin> set (fst (generate_session_id (bytes, pos))) \<and>
    (fst (generate_session_id (bytes, pos)) = fst (generate_session_id (bytes', pos')) \<longrightarrow>
       (\<forall>i < 48. bytes (pos + i) = bytes' (pos' + i)))) \<and>
   (snd (generate_session_id_legacy sha256 (bytes, pos)) = (bytes, pos + 20) \<and>
    fst (generate_session_id_legacy sha256 (bytes, pos))
      = hexdigest (sha256 (sha256 (map bytes [pos ..< pos + 20]))) \<and>
    set (fst (generate_session_id_legacy sha256 (bytes, pos))) \<subseteq> set hex_digits \<and>
    CHR ''='' \<notin> set (fst (generate_session_id_legacy sha256 (bytes, pos))) \<and>
    ((\<forall>i < 20. bytes (pos + i) = bytes' (pos' + i)) \<longrightarrow>
       fst (generate_session_id_legacy sha256 (bytes, pos))
         = fst (generate_session_id_legacy sha256 (bytes', pos'))))"
  by (rule conjI[OF generated_id_current generated_id_legacy])

text \<open>
  The source whose bytes are 0, 1, 2, ...: the id is the base64 text of the bytes 0 to 47,
  and the legacy generator leaves the source at byte 20.
\<close>

theorem generated_ids_witness:
  "fst (generate_session_id ((\<lambda>i. of_nat i), 0))
     = ''AAECAwQFBgcICQoLDA0ODxAREhMUFRYXGBkaGxwdHh8gISIjJCUmJygpKissLS4v'' \<and>
   snd (generate_session_id ((\<lambda>i. of_nat i), 0)) = ((\<lambda>i. of_nat i), 48) \<and>
   length (fst (generate_session_id ((\<lambda>i. of_nat i), 0))) = 64 \<and>
   snd (generate_session_id_legacy example_sha256 ((\<lambda>i. of_nat i), 0))
     = ((\<lambda>i. of_nat i), 20)"
proof -
  have v: "fst (generate_session_id ((\<lambda>i. of_nat i), 0))
     = ''AAECAwQFBgcICQoLDA0ODxAREhMUFRYXGBkaGxwdHh8gISIjJCUmJygpKissLS4v''"
    by (simp add: generate_session_id_def token_urlsafe_def os_urandom_def rstrip_pad_def
          b64_group_def urlsafe_alphabet_def upt_rec)
  have "snd (generate_session_id ((\<lambda>i. of_nat i), 0)) = ((\<lambda>i. of_nat i), 0 + 48) \<and>
        length (fst (generate_session_id ((\<lambda>i. of_nat i), 0))) = 64 \<and>
        snd (generate_session_id_legacy example_sha256 ((\<lambda>i. of_nat i), 0))
          = ((\<lambda>i. of_nat i), 0 + 20)"
    using generated_ids [of "\<lambda>i. of_nat i" 0 "\<lambda>i. of_nat i" 0 example_sha256] by blast
  with v show ?thesis by simp
qed

end
